theory Spec2Isabelle
  imports Main
begin

section \<open>Data model of the MCP chat client\<close>

text \<open>
  The development embeds \<^verbatim>\<open>src/file/client.js\<close> (class \<^verbatim>\<open>FileSystemMCPClient\<close>).
  The methods \<^verbatim>\<open>processQuery\<close> and \<^verbatim>\<open>chatLoop\<close> of the second client
  (class \<^verbatim>\<open>MCPClient\<close>) are the same text, so one embedding serves both.

  Values that the client only passes along (parsed tool arguments, input schemas, the
  content blocks of a tool result) are JSON values; their type is the parameter \<open>'j\<close>.
\<close>

text \<open>
  A thrown JavaScript value. The handler of \<^verbatim>\<open>processQuery\<close> reads
  \<^verbatim>\<open>error.message\<close> when the value is an instance of \<^verbatim>\<open>Error\<close> and
  \<^verbatim>\<open>String(error)\<close> otherwise.
\<close>

datatype js_error =
    ErrorObject string  \<comment> \<open>an instance of Error, with its message\<close>
  | Thrown string       \<comment> \<open>any other thrown value, with its String(...) rendering\<close>

fun error_text :: "js_error \<Rightarrow> string" where
  "error_text (ErrorObject m) = m"
| "error_text (Thrown s) = s"

text \<open>A transcript entry \<^verbatim>\<open>{role, content}\<close>: the content is the query text or a tool result's content.\<close>

datatype 'j content = Text string | Payload 'j

record 'j chat_message =
  role :: string
  content :: "'j content"

text \<open>A tool descriptor as \<^verbatim>\<open>listTools()\<close> returns it; the description is optional.\<close>

record 'j tool =
  name :: string
  description :: "string option"
  inputSchema :: 'j

text \<open>The calling convention of the chat API: \<^verbatim>\<open>{type, function: {name, description, parameters}}\<close>.\<close>

record 'j tool_function =
  fn_name :: string
  fn_description :: "string option"
  fn_parameters :: 'j

record 'j callable_tool =
  tool_type :: string
  tool_function :: "'j tool_function"

text \<open>A requested tool call: \<^verbatim>\<open>toolCall.function.name\<close> and \<^verbatim>\<open>toolCall.function.arguments\<close> (JSON text).\<close>

record tool_call =
  call_name :: string
  call_arguments :: string

text \<open>
  The message of one candidate reply. \<^verbatim>\<open>content\<close> and \<^verbatim>\<open>tool_calls\<close> may be
  absent or null (\<open>None\<close>).
\<close>

record assistant_message =
  msg_content :: "string option"
  tool_calls :: "tool_call list option"

record choice =
  message :: assistant_message

record response =
  choices :: "choice list"

text \<open>The result of \<^verbatim>\<open>mcp.callTool\<close>; a tool server signals failure inside a result, by \<^verbatim>\<open>isError\<close>.\<close>

record 'j tool_result =
  result_content :: 'j
  isError :: bool

text \<open>The argument of \<^verbatim>\<open>openai.chat.completions.create\<close>.\<close>

record 'j request =
  req_model :: string
  req_max_tokens :: nat
  req_messages :: "'j chat_message list"
  req_tools :: "'j callable_tool list option"

text \<open>What the client does to the outside world, in order: completions and tool executions.\<close>

datatype 'j event =
    Completion "'j request"
  | CallTool string 'j

text \<open>
  The collaborators. The chat endpoint and the tool server are stateful, so their answer
  is a function of the request and of everything the client has done before (the history
  of events); each may throw (\<open>Inl\<close>). \<^verbatim>\<open>JSON.parse\<close> throws on malformed text;
  \<^verbatim>\<open>JSON.stringify\<close> of a parsed value returns a string.
\<close>

record 'j env =
  create :: "'j event list \<Rightarrow> 'j request \<Rightarrow> js_error + response"
  callTool :: "'j event list \<Rightarrow> string \<Rightarrow> 'j \<Rightarrow> js_error + 'j tool_result"
  JSON_parse :: "string \<Rightarrow> js_error + 'j"
  JSON_stringify :: "'j \<Rightarrow> string"
  mcp_connect :: "js_error option"
  listTools :: "js_error + 'j tool list"
  mcp_close :: "js_error option"

section \<open>Tool registry adapter\<close>

text \<open>The function mapped over \<^verbatim>\<open>toolsResult.tools\<close> in \<^verbatim>\<open>connectToFileSystemServer\<close>.\<close>

definition adaptTool :: "'j tool \<Rightarrow> 'j callable_tool" where
  "adaptTool t =
     \<lparr>tool_type = ''function'',
      tool_function =
        \<lparr>fn_name = name t, fn_description = description t, fn_parameters = inputSchema t\<rparr>\<rparr>"

definition adapt :: "'j tool list \<Rightarrow> 'j callable_tool list" where
  "adapt ts = map adaptTool ts"


section \<open>The orchestration loop\<close>

text \<open>The local variables of \<^verbatim>\<open>processQuery\<close> that the loops update.\<close>

record 'j locals =
  messages :: "'j chat_message list"
  finalText :: "string list"

definition userMessage :: "'j content \<Rightarrow> 'j chat_message" where
  "userMessage c = \<lparr>role = ''user'', content = c\<rparr>"

text \<open>The first request carries the tool registry, a follow-up request has no \<^verbatim>\<open>tools\<close> key.\<close>

definition firstRequest :: "'j callable_tool list \<Rightarrow> 'j chat_message list \<Rightarrow> 'j request" where
  "firstRequest tools ms =
     \<lparr>req_model = ''deepseek-chat'', req_max_tokens = 1000, req_messages = ms,
      req_tools = Some tools\<rparr>"

definition followUpRequest :: "'j chat_message list \<Rightarrow> 'j request" where
  "followUpRequest ms =
     \<lparr>req_model = ''deepseek-chat'', req_max_tokens = 1000, req_messages = ms,
      req_tools = None\<rparr>"

text \<open>
  \<^verbatim>\<open>if (message.content) finalText.push(message.content)\<close>: an absent or null
  content and the empty string are falsy.
\<close>

definition pushContent :: "assistant_message \<Rightarrow> string list \<Rightarrow> string list" where
  "pushContent m out =
     (case msg_content m of
        None \<Rightarrow> out
      | Some s \<Rightarrow> if s \<noteq> [] then out @ [s] else out)"

text \<open>Reading \<^verbatim>\<open>response.choices[0].message\<close> of a response with no candidate throws a TypeError.\<close>

definition undefined_message :: js_error where
  "undefined_message =
     ErrorObject ''Cannot read properties of undefined (reading 'message')''"

definition traceLine :: "'j env \<Rightarrow> string \<Rightarrow> 'j \<Rightarrow> string" where
  "traceLine env toolName toolArgs =
     ''[Calling tool '' @ toolName @ '' with args '' @ JSON_stringify env toolArgs @ '']''"

definition toolMessage :: "'j tool_result \<Rightarrow> 'j chat_message" where
  "toolMessage result = userMessage (Payload (result_content result))"

text \<open>
  The body of \<^verbatim>\<open>for (const toolCall of message.tool_calls)\<close>. It returns the updated
  locals, or the exception that leaves the loop, and in both cases the history of events.
  A collaborator is given the history before its own call; the call is recorded whether
  it returns or throws.
\<close>

definition processToolCall ::
  "'j env \<Rightarrow> 'j event list \<Rightarrow> 'j locals \<Rightarrow> tool_call \<Rightarrow> (js_error + 'j locals) \<times> 'j event list"
where
  "processToolCall env h st toolCall =
     (let toolName = call_name toolCall in
      case JSON_parse env (call_arguments toolCall) of
        Inl e \<Rightarrow> (Inl e, h)
      | Inr toolArgs \<Rightarrow>
          (let h1 = h @ [CallTool toolName toolArgs] in
           case callTool env h toolName toolArgs of
             Inl e \<Rightarrow> (Inl e, h1)
           | Inr result \<Rightarrow>
               (let out1 = finalText st @ [traceLine env toolName toolArgs];
                    ms1 = messages st @ [toolMessage result];
                    h2 = h1 @ [Completion (followUpRequest ms1)]
                in case create env h1 (followUpRequest ms1) of
                     Inl e \<Rightarrow> (Inl e, h2)
                   | Inr response \<Rightarrow>
                       (case choices response of
                          [] \<Rightarrow> (Inl undefined_message, h2)
                        | c # _ \<Rightarrow>
                            (Inr \<lparr>messages = ms1, finalText = pushContent (message c) out1\<rparr>,
                             h2)))))"

fun processToolCalls ::
  "'j env \<Rightarrow> 'j event list \<Rightarrow> 'j locals \<Rightarrow> tool_call list \<Rightarrow> (js_error + 'j locals) \<times> 'j event list"
where
  "processToolCalls env h st [] = (Inr st, h)"
| "processToolCalls env h st (toolCall # rest) =
     (case processToolCall env h st toolCall of
        (Inl e, h') \<Rightarrow> (Inl e, h')
      | (Inr st', h') \<Rightarrow> processToolCalls env h' st' rest)"

text \<open>
  The body of \<^verbatim>\<open>for (const choice of response.choices)\<close>: push the text, then run the
  tool calls when \<^verbatim>\<open>message.tool_calls\<close> is present.
\<close>

fun processChoices ::
  "'j env \<Rightarrow> 'j event list \<Rightarrow> 'j locals \<Rightarrow> choice list \<Rightarrow> (js_error + 'j locals) \<times> 'j event list"
where
  "processChoices env h st [] = (Inr st, h)"
| "processChoices env h st (c # rest) =
     (let st1 = st\<lparr>finalText := pushContent (message c) (finalText st)\<rparr> in
      case tool_calls (message c) of
        None \<Rightarrow> processChoices env h st1 rest
      | Some calls \<Rightarrow>
          (case processToolCalls env h st1 calls of
             (Inl e, h') \<Rightarrow> (Inl e, h')
           | (Inr st2, h') \<Rightarrow> processChoices env h' st2 rest))"

text \<open>\<^verbatim>\<open>Array.prototype.join\<close> on an array of strings.\<close>

fun join :: "string \<Rightarrow> string list \<Rightarrow> string" where
  "join sep [] = []"
| "join sep [x] = x"
| "join sep (x # y # ys) = x @ sep @ join sep (y # ys)"

definition newline :: string where
  "newline = [CHR 0x0A]"

text \<open>
  The \<^verbatim>\<open>try\<close> block of \<^verbatim>\<open>processQuery\<close>. The logging statement after the first
  completion reads \<^verbatim>\<open>response.choices[0].message\<close>, which throws when there is no
  candidate.
\<close>

definition processQuery_try ::
  "'j env \<Rightarrow> 'j callable_tool list \<Rightarrow> 'j event list \<Rightarrow> string \<Rightarrow> (js_error + string) \<times> 'j event list"
where
  "processQuery_try env tools h query =
     (let ms = [userMessage (Text query)];
          h1 = h @ [Completion (firstRequest tools ms)]
      in case create env h (firstRequest tools ms) of
           Inl e \<Rightarrow> (Inl e, h1)
         | Inr response \<Rightarrow>
             if choices response = [] then (Inl undefined_message, h1)
             else
               (case processChoices env h1 \<lparr>messages = ms, finalText = []\<rparr> (choices response) of
                  (Inl e, h') \<Rightarrow> (Inl e, h')
                | (Inr st, h') \<Rightarrow> (Inr (join newline (finalText st)), h')))"

text \<open>
  \<^verbatim>\<open>processQuery\<close>: the \<^verbatim>\<open>try\<close> block and its \<^verbatim>\<open>catch\<close>, which returns the
  error string. \<open>tools\<close> is \<^verbatim>\<open>this.tools\<close>, the registry that the connection has
  stored; \<open>h\<close> is the history of events before the query. The logging statements are
  left out.
\<close>

definition processQuery ::
  "'j env \<Rightarrow> 'j callable_tool list \<Rightarrow> 'j event list \<Rightarrow> string \<Rightarrow> string \<times> 'j event list"
where
  "processQuery env tools h query =
     (case processQuery_try env tools h query of
        (Inl error, h') \<Rightarrow> (''Error: '' @ error_text error, h')
      | (Inr result, h') \<Rightarrow> (result, h'))"

section \<open>Session driver\<close>

text \<open>
  \<^verbatim>\<open>String.prototype.toLowerCase\<close> on the bytes of the line: the letters A to Z are
  mapped to a to z. Bytes outside ASCII are left as they are; no character outside ASCII
  lowers to one of the letters of \<^verbatim>\<open>quit\<close> alone.
\<close>

definition toLowerChar :: "char \<Rightarrow> char" where
  "toLowerChar c =
     (let n = (of_char c :: nat) in if 65 \<le> n \<and> n \<le> 90 then char_of (n + 32) else c)"

definition toLowerCase :: "string \<Rightarrow> string" where
  "toLowerCase s = map toLowerChar s"

text \<open>
  How the \<^verbatim>\<open>while (true)\<close> loop of \<^verbatim>\<open>chatLoop\<close> stops: by \<^verbatim>\<open>break\<close>, or by
  waiting for a line that never comes once standard input is exhausted.
\<close>

datatype loop_exit = Break | AwaitingInput

text \<open>
  \<^verbatim>\<open>chatLoop\<close> over the lines typed at the prompt. It returns what was printed for the
  queries, the history of events and how the loop stopped. \<^verbatim>\<open>processQuery\<close> returns
  a string in every case, so the \<^verbatim>\<open>catch\<close> around its call is never entered.
\<close>

fun chatLoop ::
  "'j env \<Rightarrow> 'j callable_tool list \<Rightarrow> 'j event list \<Rightarrow> string list \<Rightarrow> string list \<times> 'j event list \<times> loop_exit"
where
  "chatLoop env tools h [] = ([], h, AwaitingInput)"
| "chatLoop env tools h (line # rest) =
     (if toLowerCase line = ''quit'' then ([], h, Break)
      else
        (case processQuery env tools h line of
           (response, h') \<Rightarrow>
             (case chatLoop env tools h' rest of
                (printed, h'', stop) \<Rightarrow> ((newline @ response) # printed, h'', stop))))"



section \<open>Vocabulary of the properties\<close>

text \<open>The exception an event ended with, when the collaborator threw.\<close>

fun event_error :: "'j env \<Rightarrow> 'j event list \<Rightarrow> 'j event \<Rightarrow> js_error option" where
  "event_error env h (Completion req) =
     (case create env h req of Inl e \<Rightarrow> Some e | Inr _ \<Rightarrow> None)"
| "event_error env h (CallTool n a) =
     (case callTool env h n a of Inl e \<Rightarrow> Some e | Inr _ \<Rightarrow> None)"

text \<open>Every event of a run returned.\<close>

fun all_returned :: "'j env \<Rightarrow> 'j event list \<Rightarrow> 'j event list \<Rightarrow> bool" where
  "all_returned env h [] = True"
| "all_returned env h (ev # evs) =
     (event_error env h ev = None \<and> all_returned env (h @ [ev]) evs)"

text \<open>
  A run stops at the first event that throws, and \<open>err\<close>, the exception the run ends
  with (if any), is then that event's.
\<close>

fun stops_at_failure ::
  "'j env \<Rightarrow> 'j event list \<Rightarrow> 'j event list \<Rightarrow> js_error option \<Rightarrow> bool"
where
  "stops_at_failure env h [] err = True"
| "stops_at_failure env h (ev # evs) err =
     (case event_error env h ev of
        Some e \<Rightarrow> evs = [] \<and> err = Some e
      | None \<Rightarrow> stops_at_failure env (h @ [ev]) evs err)"

fun thrown :: "js_error + 'a \<Rightarrow> js_error option" where
  "thrown (Inl e) = Some e"
| "thrown (Inr _) = None"



text \<open>
  What the collaborators answered to one tool call: the parsed arguments, the tool's
  result, and the message of the first candidate of the follow-up completion.
\<close>

record 'j step =
  step_args :: 'j
  step_result :: "'j tool_result"
  step_reply :: assistant_message

text \<open>
  \<open>replays env h ms calls steps\<close>: from the history \<open>h\<close> and the transcript \<open>ms\<close>,
  the collaborators answer the tool calls, one after the other, as the steps say: the
  arguments parse, the tool returns its result, and the follow-up completion on the
  transcript extended by that result returns a response with a first candidate.
\<close>

fun replays ::
  "'j env \<Rightarrow> 'j event list \<Rightarrow> 'j chat_message list \<Rightarrow> tool_call list \<Rightarrow> 'j step list \<Rightarrow> bool"
where
  "replays env h ms [] [] = True"
| "replays env h ms (tc # tcs) (s # ss) =
     (JSON_parse env (call_arguments tc) = Inr (step_args s)
      \<and> callTool env h (call_name tc) (step_args s) = Inr (step_result s)
      \<and> (case create env (h @ [CallTool (call_name tc) (step_args s)])
                  (followUpRequest (ms @ [toolMessage (step_result s)])) of
            Inl e \<Rightarrow> False
          | Inr resp \<Rightarrow> (case choices resp of [] \<Rightarrow> False | c # _ \<Rightarrow> message c = step_reply s))
      \<and> replays env
            (h @ [CallTool (call_name tc) (step_args s),
                  Completion (followUpRequest (ms @ [toolMessage (step_result s)]))])
            (ms @ [toolMessage (step_result s)]) tcs ss)"
| "replays env h ms _ _ = False"

text \<open>
  The events of the tool calls: for the i-th call, the execution of the tool and then one
  follow-up completion, without tool registry, on the transcript \<open>ms\<close> extended by the
  outputs of the calls up to the i-th.
\<close>

definition eventsOf :: "'j chat_message list \<Rightarrow> tool_call list \<Rightarrow> 'j step list \<Rightarrow> 'j event list" where
  "eventsOf ms tcs ss =
     concat (map (\<lambda>i.
        [CallTool (call_name (tcs ! i)) (step_args (ss ! i)),
         Completion
           \<lparr>req_model = ''deepseek-chat'', req_max_tokens = 1000,
            req_messages = ms @ map (\<lambda>s. toolMessage (step_result s)) (take (Suc i) ss),
            req_tools = None\<rparr>])
      [0..<length ss])"

text \<open>What one tool call adds to the output: its trace line, then the follow-up's text if any.\<close>

definition narration :: "'j env \<Rightarrow> tool_call \<Rightarrow> 'j step \<Rightarrow> string list" where
  "narration env tc s =
     traceLine env (call_name tc) (step_args s) #
       (case msg_content (step_reply s) of
          None \<Rightarrow> []
        | Some text \<Rightarrow> if text \<noteq> [] then [text] else [])"

text \<open>The tool calls a response requests, candidate by candidate, in order.\<close>

definition requestedCalls :: "response \<Rightarrow> tool_call list" where
  "requestedCalls r =
     concat (map (\<lambda>c. case tool_calls (message c) of None \<Rightarrow> [] | Some calls \<Rightarrow> calls)
               (choices r))"

text \<open>
  \<open>followUps_conform env h ms calls evs\<close>: the events \<open>evs\<close>, which follow the history
  \<open>h\<close> and the transcript \<open>ms\<close>, are executions of the requested tool calls, in the
  order requested and with their parsed arguments, each followed by one completion,
  without tool registry, whose transcript is the previous transcript with the output of
  that execution appended as a message of role user. The events may end early (the query
  was aborted), after an execution or after a completion.
\<close>

fun followUps_conform ::
  "'j env \<Rightarrow> 'j event list \<Rightarrow> 'j chat_message list \<Rightarrow> tool_call list \<Rightarrow> 'j event list \<Rightarrow> bool"
where
  "followUps_conform env h ms calls [] = True"
| "followUps_conform env h ms (tc # calls) [CallTool n a] =
     (n = call_name tc \<and> JSON_parse env (call_arguments tc) = Inr a)"
| "followUps_conform env h ms (tc # calls) (CallTool n a # Completion req # evs) =
     (n = call_name tc \<and> JSON_parse env (call_arguments tc) = Inr a
      \<and> (case callTool env h n a of
            Inl e \<Rightarrow> False
          | Inr result \<Rightarrow>
              req = \<lparr>req_model = ''deepseek-chat'', req_max_tokens = 1000,
                     req_messages = ms @ [\<lparr>role = ''user'', content = Payload (result_content result)\<rparr>],
                     req_tools = None\<rparr>
              \<and> followUps_conform env (h @ [CallTool n a, Completion req])
                    (ms @ [\<lparr>role = ''user'', content = Payload (result_content result)\<rparr>])
                    calls evs))"
| "followUps_conform env h ms calls evs = False"

text \<open>The transcripts of the follow-up completions of a history, in order.\<close>

fun isCompletion :: "'j event \<Rightarrow> bool" where
  "isCompletion (Completion _) = True"
| "isCompletion (CallTool _ _) = False"

fun followUpTranscripts :: "'j event list \<Rightarrow> 'j chat_message list list" where
  "followUpTranscripts [] = []"
| "followUpTranscripts (Completion req # evs) =
     (if req_tools req = None then req_messages req # followUpTranscripts evs
      else followUpTranscripts evs)"
| "followUpTranscripts (CallTool n a # evs) = followUpTranscripts evs"

text \<open>
  The follow-up transcript in the words of the specification (section 3, invariant): the
  prior transcript with the assistant's tool-call message and the resulting tool outputs
  appended.
\<close>

definition spec_followUp_transcript ::
  "'j chat_message list \<Rightarrow> 'j chat_message \<Rightarrow> 'j chat_message list \<Rightarrow> 'j chat_message list"
where
  "spec_followUp_transcript prior assistantMessage outputs = prior @ [assistantMessage] @ outputs"

text \<open>
  An environment whose follow-up completions (the requests without tool registry) return
  their first candidate only.
\<close>

definition firstCandidateOnly :: "response \<Rightarrow> response" where
  "firstCandidateOnly r = r\<lparr>choices := take 1 (choices r)\<rparr>"

definition truncateFollowUps :: "'j env \<Rightarrow> 'j env" where
  "truncateFollowUps env =
     env\<lparr>create := (\<lambda>h req.
       if req_tools req = None then
         (case create env h req of Inl e \<Rightarrow> Inl e | Inr r \<Rightarrow> Inr (firstCandidateOnly r))
       else create env h req)\<rparr>"


text \<open>
  What the candidates of a response add to the output, when \<open>ss\<close> are the steps of
  all their tool calls in order: for each candidate its text, if any, and then the
  narration of its own tool calls.
\<close>

fun candidateOutputs :: "'j env \<Rightarrow> choice list \<Rightarrow> 'j step list \<Rightarrow> string list" where
  "candidateOutputs env [] ss = []"
| "candidateOutputs env (c # cs) ss =
     (case tool_calls (message c) of
        None \<Rightarrow> pushContent (message c) [] @ candidateOutputs env cs ss
      | Some calls \<Rightarrow>
          pushContent (message c) []
            @ concat (map2 (narration env) calls (take (length calls) ss))
            @ candidateOutputs env cs (drop (length calls) ss))"

section \<open>Example environments\<close>

text \<open>
  Environments for the concrete instances below. JSON values are represented by the text
  that \<^verbatim>\<open>JSON.stringify\<close> prints for them. The examples use two argument texts: the
  empty object \<^verbatim>\<open>{}\<close>, and the empty text, for which \<^verbatim>\<open>JSON.parse\<close> throws a
  SyntaxError with the message below. The chat endpoint answers its k-th call with the
  k-th scripted reply, the tool server its k-th call with the k-th scripted result, and
  both throw once the script is exhausted.
\<close>

definition parseExample :: "string \<Rightarrow> js_error + string" where
  "parseExample s =
     (if s = ''{}'' then Inr ''{}''
      else Inl (ErrorObject ''Unexpected end of JSON input''))"

definition scripted ::
  "(js_error + response) list \<Rightarrow> (js_error + string tool_result) list \<Rightarrow> string env"
where
  "scripted replies results =
     \<lparr>create = (\<lambda>h req.
        let k = length (filter isCompletion h)
        in if k < length replies then replies ! k else Inl (ErrorObject ''socket hang up'')),
      callTool = (\<lambda>h n a.
        let k = length (filter (\<lambda>ev. \<not> isCompletion ev) h)
        in if k < length results then results ! k else Inl (ErrorObject ''Connection closed'')),
      JSON_parse = parseExample,
      JSON_stringify = (\<lambda>j. j),
      mcp_connect = None,
      listTools = Inr [],
      mcp_close = None\<rparr>"

definition candidate :: "string option \<Rightarrow> tool_call list option \<Rightarrow> choice" where
  "candidate text calls = \<lparr>message = \<lparr>msg_content = text, tool_calls = calls\<rparr>\<rparr>"

text \<open>Two weather look-ups, each answered by the tool and narrated by the model.\<close>

definition weatherCalls :: "tool_call list" where
  "weatherCalls =
     [\<lparr>call_name = ''get-weather'', call_arguments = ''{}''\<rparr>,
      \<lparr>call_name = ''get-air-quality'', call_arguments = ''{}''\<rparr>]"

definition weatherEnv :: "string env" where
  "weatherEnv =
     scripted
       [Inr \<lparr>choices = [candidate None (Some weatherCalls)]\<rparr>,
        Inr \<lparr>choices = [candidate (Some ''Here is the forecast: sunny'') None]\<rparr>,
        Inr \<lparr>choices = [candidate (Some ''The air is clean.'') None]\<rparr>]
       [Inr \<lparr>result_content = ''sunny, 25'', isError = False\<rparr>,
        Inr \<lparr>result_content = ''good'', isError = False\<rparr>]"

text \<open>Two file operations; the tool server's connection breaks at the second.\<close>

definition orderCalls :: "tool_call list" where
  "orderCalls =
     [\<lparr>call_name = ''read_file'', call_arguments = ''{}''\<rparr>,
      \<lparr>call_name = ''write_file'', call_arguments = ''{}''\<rparr>]"

definition orderEnv :: "string env" where
  "orderEnv =
     scripted
       [Inr \<lparr>choices = [candidate (Some ''Copying.'') (Some orderCalls)]\<rparr>,
        Inr \<lparr>choices = [candidate (Some ''Read a.'') None]\<rparr>]
       [Inr \<lparr>result_content = ''contents of a'', isError = False\<rparr>,
        Inl (ErrorObject ''Connection closed'')]"

text \<open>One directory listing, answered by the tool and narrated by the model.\<close>

definition listEnv :: "string env" where
  "listEnv =
     scripted
       [Inr \<lparr>choices = [candidate None
          (Some [\<lparr>call_name = ''list_directory'', call_arguments = ''{}''\<rparr>])]\<rparr>,
        Inr \<lparr>choices = [candidate (Some ''One file: a.txt'') None]\<rparr>]
       [Inr \<lparr>result_content = ''a.txt'', isError = False\<rparr>]"



text \<open>A first response with the given candidates; tool calls are answered and narrated.\<close>

definition candidatesEnv :: "choice list \<Rightarrow> string env" where
  "candidatesEnv cs =
     scripted
       [Inr \<lparr>choices = cs\<rparr>,
        Inr \<lparr>choices = [candidate (Some ''Done.'') None, candidate (Some ''Ignored.'') None]\<rparr>,
        Inr \<lparr>choices = [candidate (Some ''Done again.'') None]\<rparr>]
       [Inr \<lparr>result_content = ''ok'', isError = False\<rparr>,
        Inr \<lparr>result_content = ''ok again'', isError = False\<rparr>]"

text \<open>Three tool calls; the arguments of the second are the empty text.\<close>

definition malformedCalls :: "tool_call list" where
  "malformedCalls =
     [\<lparr>call_name = ''read_file'', call_arguments = ''{}''\<rparr>,
      \<lparr>call_name = ''write_file'', call_arguments = ''''\<rparr>,
      \<lparr>call_name = ''list_directory'', call_arguments = ''{}''\<rparr>]"

definition malformedEnv :: "string env" where
  "malformedEnv =
     scripted
       [Inr \<lparr>choices = [candidate None (Some malformedCalls)]\<rparr>,
        Inr \<lparr>choices = [candidate (Some ''Read a.'') None]\<rparr>,
        Inr \<lparr>choices = [candidate (Some ''Wrote b.'') None]\<rparr>]
       [Inr \<lparr>result_content = ''contents of a'', isError = False\<rparr>,
        Inr \<lparr>result_content = ''written'', isError = False\<rparr>]"


section \<open>The tool registry adapter is an order-preserving map\<close>

text \<open>
  Claim C8. The adapter is a pure and total map over the descriptor list: it has no failing
  branch, the output has one callable tool per descriptor, in the order of the input, with
  the descriptor's name, description and schema; a descriptor without description gives
  a callable tool without description; descriptors that share a name are both kept; one
  descriptor gives one callable tool of the same name; the empty list gives the empty list.
\<close>

theorem adapt_order_preserving_map:
  "length (adapt (ts :: 'j tool list)) = length ts
   \<and> map (\<lambda>c. fn_name (tool_function c)) (adapt ts) = map name ts
   \<and> map (\<lambda>c. fn_description (tool_function c)) (adapt ts) = map description ts
   \<and> map (\<lambda>c. fn_parameters (tool_function c)) (adapt ts) = map inputSchema ts
   \<and> map tool_type (adapt ts) = replicate (length ts) ''function''
   \<and> adapt (ts @ us) = adapt ts @ adapt us
   \<and> fn_description (tool_function (adaptTool (t\<lparr>description := None\<rparr>))) = None
   \<and> fn_name (tool_function (adaptTool (t\<lparr>description := None\<rparr>))) = name t
   \<and> adapt [t, t\<lparr>description := d, inputSchema := s\<rparr>]
        = [adaptTool t, adaptTool (t\<lparr>description := d, inputSchema := s\<rparr>)]
   \<and> adapt [t] =
        [\<lparr>tool_type = ''function'',
          tool_function =
            \<lparr>fn_name = name t, fn_description = description t,
             fn_parameters = inputSchema t\<rparr>\<rparr>]
   \<and> adapt ([] :: 'j tool list) = []"
  by (simp add: adapt_def adaptTool_def comp_def map_replicate_const)

theorem adapt_order_preserving_map_witness:
  "adapt [\<lparr>name = ''x'', description = Some ''d'', inputSchema = ''S''\<rparr>]
     = [\<lparr>tool_type = ''function'',
         tool_function = \<lparr>fn_name = ''x'', fn_description = Some ''d'', fn_parameters = ''S''\<rparr>\<rparr>]
   \<and> map (\<lambda>c. fn_name (tool_function c))
         (adapt [\<lparr>name = ''x'', description = None, inputSchema = ''S''\<rparr>,
                 \<lparr>name = ''x'', description = Some ''d'', inputSchema = ''T''\<rparr>])
       = [''x'', ''x'']"
proof -
  let ?ts = "[\<lparr>name = ''x'', description = None, inputSchema = ''S''\<rparr>,
              \<lparr>name = ''x'', description = Some ''d'', inputSchema = ''T''\<rparr>]"
  let ?t = "\<lparr>name = ''x'', description = Some ''d'', inputSchema = ''S''\<rparr>"
  note inst = adapt_order_preserving_map
    [where ts = ?ts and us = "[]" and t = ?t and d = None and s = "''S''"]
  have names: "map (\<lambda>c. fn_name (tool_function c)) (adapt ?ts) = map name ?ts"
    using inst by (elim conjE)
  have one: "adapt [?t] =
      [\<lparr>tool_type = ''function'',
        tool_function =
          \<lparr>fn_name = name ?t, fn_description = description ?t,
           fn_parameters = inputSchema ?t\<rparr>\<rparr>]"
    using inst by (elim conjE)
  show ?thesis using names one by simp
qed

section \<open>One tool call, and the loops over tool calls and candidates\<close>

lemma processToolCall_parse_error:
  "JSON_parse env (call_arguments tc) = Inl e \<Longrightarrow> processToolCall env h st tc = (Inl e, h)"
  by (simp add: processToolCall_def Let_def)

lemma processToolCall_callTool_error:
  "JSON_parse env (call_arguments tc) = Inr a \<Longrightarrow> callTool env h (call_name tc) a = Inl e \<Longrightarrow>
   processToolCall env h st tc = (Inl e, h @ [CallTool (call_name tc) a])"
  by (simp add: processToolCall_def Let_def)

lemma processToolCall_followUp_error:
  "JSON_parse env (call_arguments tc) = Inr a \<Longrightarrow> callTool env h (call_name tc) a = Inr r \<Longrightarrow>
   create env (h @ [CallTool (call_name tc) a]) (followUpRequest (messages st @ [toolMessage r])) = Inl e \<Longrightarrow>
   processToolCall env h st tc =
     (Inl e, h @ [CallTool (call_name tc) a, Completion (followUpRequest (messages st @ [toolMessage r]))])"
  by (simp add: processToolCall_def Let_def)

lemma processToolCall_followUp_empty:
  "JSON_parse env (call_arguments tc) = Inr a \<Longrightarrow> callTool env h (call_name tc) a = Inr r \<Longrightarrow>
   create env (h @ [CallTool (call_name tc) a]) (followUpRequest (messages st @ [toolMessage r])) = Inr resp \<Longrightarrow>
   choices resp = [] \<Longrightarrow>
   processToolCall env h st tc =
     (Inl undefined_message, h @ [CallTool (call_name tc) a, Completion (followUpRequest (messages st @ [toolMessage r]))])"
  by (simp add: processToolCall_def Let_def)

lemma processToolCall_success:
  "JSON_parse env (call_arguments tc) = Inr a \<Longrightarrow> callTool env h (call_name tc) a = Inr r \<Longrightarrow>
   create env (h @ [CallTool (call_name tc) a]) (followUpRequest (messages st @ [toolMessage r])) = Inr resp \<Longrightarrow>
   choices resp = c # cs \<Longrightarrow>
   processToolCall env h st tc =
     (Inr \<lparr>messages = messages st @ [toolMessage r],
           finalText = pushContent (message c) (finalText st @ [traceLine env (call_name tc) a])\<rparr>,
      h @ [CallTool (call_name tc) a, Completion (followUpRequest (messages st @ [toolMessage r]))])"
  by (simp add: processToolCall_def Let_def)

lemma processToolCall_cases:
  obtains
    (parse_error) e where "JSON_parse env (call_arguments tc) = Inl e"
      "processToolCall env h st tc = (Inl e, h)"
  | (callTool_error) a e where "JSON_parse env (call_arguments tc) = Inr a"
      "callTool env h (call_name tc) a = Inl e"
      "processToolCall env h st tc = (Inl e, h @ [CallTool (call_name tc) a])"
  | (followUp_error) a r e where "JSON_parse env (call_arguments tc) = Inr a"
      "callTool env h (call_name tc) a = Inr r"
      "create env (h @ [CallTool (call_name tc) a]) (followUpRequest (messages st @ [toolMessage r])) = Inl e"
      "processToolCall env h st tc =
         (Inl e, h @ [CallTool (call_name tc) a, Completion (followUpRequest (messages st @ [toolMessage r]))])"
  | (followUp_empty) a r resp where "JSON_parse env (call_arguments tc) = Inr a"
      "callTool env h (call_name tc) a = Inr r"
      "create env (h @ [CallTool (call_name tc) a]) (followUpRequest (messages st @ [toolMessage r])) = Inr resp"
      "choices resp = []"
      "processToolCall env h st tc =
         (Inl undefined_message, h @ [CallTool (call_name tc) a, Completion (followUpRequest (messages st @ [toolMessage r]))])"
  | (success) a r resp c cs where "JSON_parse env (call_arguments tc) = Inr a"
      "callTool env h (call_name tc) a = Inr r"
      "create env (h @ [CallTool (call_name tc) a]) (followUpRequest (messages st @ [toolMessage r])) = Inr resp"
      "choices resp = c # cs"
      "processToolCall env h st tc =
         (Inr \<lparr>messages = messages st @ [toolMessage r],
               finalText = pushContent (message c) (finalText st @ [traceLine env (call_name tc) a])\<rparr>,
          h @ [CallTool (call_name tc) a, Completion (followUpRequest (messages st @ [toolMessage r]))])"
proof (cases "JSON_parse env (call_arguments tc)")
  case (Inl e)
  show ?thesis
    by (rule parse_error [OF Inl processToolCall_parse_error [OF Inl]])
next
  case p: (Inr a)
  show ?thesis
  proof (cases "callTool env h (call_name tc) a")
    case (Inl e)
    show ?thesis
      by (rule callTool_error [OF p Inl processToolCall_callTool_error [OF p Inl]])
  next
    case ct: (Inr r)
    show ?thesis
    proof (cases "create env (h @ [CallTool (call_name tc) a])
                    (followUpRequest (messages st @ [toolMessage r]))")
      case (Inl e)
      show ?thesis
        by (rule followUp_error [OF p ct Inl processToolCall_followUp_error [OF p ct Inl]])
    next
      case cr: (Inr resp)
      show ?thesis
      proof (cases "choices resp")
        case Nil
        show ?thesis
          by (rule followUp_empty [OF p ct cr Nil processToolCall_followUp_empty [OF p ct cr Nil]])
      next
        case (Cons c cs)
        show ?thesis
          by (rule success [OF p ct cr Cons processToolCall_success [OF p ct cr Cons]])
      qed
    qed
  qed
qed

lemma processToolCalls_append:
  "processToolCalls env h st (xs @ ys) =
     (case processToolCalls env h st xs of
        (Inl e, h') \<Rightarrow> (Inl e, h')
      | (Inr st', h') \<Rightarrow> processToolCalls env h' st' ys)"
  by (induction xs arbitrary: h st) (auto split: prod.splits sum.splits)

lemma processChoices_append:
  "processChoices env h st (xs @ ys) =
     (case processChoices env h st xs of
        (Inl e, h') \<Rightarrow> (Inl e, h')
      | (Inr st', h') \<Rightarrow> processChoices env h' st' ys)"
  by (induction xs arbitrary: h st) (auto simp: Let_def split: prod.splits sum.splits option.splits)


lemma all_returned_append:
  "all_returned env h (xs @ ys) = (all_returned env h xs \<and> all_returned env (h @ xs) ys)"
  by (induction xs arbitrary: h) auto

lemma stops_at_failure_append:
  "all_returned env h xs \<Longrightarrow>
   stops_at_failure env h (xs @ ys) err = stops_at_failure env (h @ xs) ys err"
  by (induction xs arbitrary: h) auto

lemma failure_is_last:
  "stops_at_failure env h (pre @ ev # post) err \<Longrightarrow> event_error env (h @ pre) ev = Some e \<Longrightarrow>
   post = [] \<and> err = Some e"
proof (induction pre arbitrary: h)
  case Nil
  then show ?case by simp
next
  case (Cons x pre)
  then show ?case by (cases "event_error env h x") auto
qed

lemma processToolCall_history:
  assumes "processToolCall env h st tc = (res, h')"
  shows "\<exists>evs. h' = h @ evs \<and> stops_at_failure env h evs (thrown res)
           \<and> (thrown res = None \<longrightarrow> all_returned env h evs)"
  using assms
  by (cases rule: processToolCall_cases [of env tc h st]) auto

lemma processToolCalls_history:
  "processToolCalls env h st tcs = (res, h') \<Longrightarrow>
   \<exists>evs. h' = h @ evs \<and> stops_at_failure env h evs (thrown res)
           \<and> (thrown res = None \<longrightarrow> all_returned env h evs)"
proof (induction tcs arbitrary: h st)
  case Nil
  then show ?case by auto
next
  case (Cons tc tcs)
  obtain r1 h1 where step: "processToolCall env h st tc = (r1, h1)"
    by (cases "processToolCall env h st tc")
  from processToolCall_history [OF step] obtain evs1 where
    h1: "h1 = h @ evs1" and s1: "stops_at_failure env h evs1 (thrown r1)"
    and a1: "thrown r1 = None \<longrightarrow> all_returned env h evs1"
    by (elim exE conjE)
  show ?case
  proof (cases r1)
    case (Inl e)
    with Cons.prems step have "res = Inl e" "h' = h1" by simp_all
    with h1 s1 Inl show ?thesis by simp
  next
    case (Inr st1)
    with Cons.prems step have rest: "processToolCalls env h1 st1 tcs = (res, h')" by simp
    from Cons.IH [OF rest] obtain evs2 where
      h2: "h' = h1 @ evs2" and s2: "stops_at_failure env h1 evs2 (thrown res)"
      and a2: "thrown res = None \<longrightarrow> all_returned env h1 evs2"
      by (elim exE conjE)
    from a1 Inr have ar: "all_returned env h evs1" by simp
    have "h' = h @ (evs1 @ evs2)" using h1 h2 by simp
    moreover have "stops_at_failure env h (evs1 @ evs2) (thrown res)"
      using stops_at_failure_append [OF ar] s2 h1 by simp
    moreover have "thrown res = None \<longrightarrow> all_returned env h (evs1 @ evs2)"
      using ar a2 h1 by (simp add: all_returned_append)
    ultimately show ?thesis by (intro exI [of _ "evs1 @ evs2"] conjI)
  qed
qed


lemma processChoices_history:
  "processChoices env h st cs = (res, h') \<Longrightarrow>
   \<exists>evs. h' = h @ evs \<and> stops_at_failure env h evs (thrown res)
           \<and> (thrown res = None \<longrightarrow> all_returned env h evs)"
proof (induction cs arbitrary: h st)
  case Nil
  then show ?case by auto
next
  case (Cons c cs)
  let ?st1 = "st\<lparr>finalText := pushContent (message c) (finalText st)\<rparr>"
  show ?case
  proof (cases "tool_calls (message c)")
    case None
    with Cons.prems have "processChoices env h ?st1 cs = (res, h')" by simp
    from Cons.IH [OF this] show ?thesis .
  next
    case (Some calls)
    obtain r1 h1 where calls: "processToolCalls env h ?st1 calls = (r1, h1)"
      by (cases "processToolCalls env h ?st1 calls")
    from processToolCalls_history [OF calls] obtain evs1 where
      h1: "h1 = h @ evs1" and s1: "stops_at_failure env h evs1 (thrown r1)"
      and a1: "thrown r1 = None \<longrightarrow> all_returned env h evs1"
      by (elim exE conjE)
    show ?thesis
    proof (cases r1)
      case (Inl e)
      with Cons.prems Some calls have "res = Inl e" "h' = h1" by simp_all
      with h1 s1 Inl show ?thesis by simp
    next
      case (Inr st2)
      with Cons.prems Some calls have rest: "processChoices env h1 st2 cs = (res, h')" by simp
      from Cons.IH [OF rest] obtain evs2 where
        h2: "h' = h1 @ evs2" and s2: "stops_at_failure env h1 evs2 (thrown res)"
        and a2: "thrown res = None \<longrightarrow> all_returned env h1 evs2"
        by (elim exE conjE)
      from a1 Inr have ar: "all_returned env h evs1" by simp
      have "h' = h @ (evs1 @ evs2)" using h1 h2 by simp
      moreover have "stops_at_failure env h (evs1 @ evs2) (thrown res)"
        using stops_at_failure_append [OF ar] s2 h1 by simp
      moreover have "thrown res = None \<longrightarrow> all_returned env h (evs1 @ evs2)"
        using ar a2 h1 by (simp add: all_returned_append)
      ultimately show ?thesis by (intro exI [of _ "evs1 @ evs2"] conjI)
    qed
  qed
qed

lemma processQuery_try_history:
  assumes "processQuery_try env tools h query = (res, h')"
  shows "\<exists>evs. h' = h @ evs \<and> stops_at_failure env h evs (thrown res)"
proof -
  let ?req = "firstRequest tools [userMessage (Text query)]"
  let ?h1 = "h @ [Completion ?req]"
  show ?thesis
  proof (cases "create env h ?req")
    case (Inl e)
    with assms have "res = Inl e" "h' = ?h1" by (simp_all add: processQuery_try_def)
    with Inl show ?thesis by simp
  next
    case (Inr r)
    show ?thesis
    proof (cases "choices r = []")
      case True
      with Inr assms have "h' = ?h1" by (simp add: processQuery_try_def)
      with Inr show ?thesis by simp
    next
      case False
      let ?st = "\<lparr>messages = [userMessage (Text query)], finalText = []\<rparr>"
      obtain r1 h1 where run: "processChoices env ?h1 ?st (choices r) = (r1, h1)"
        by (cases "processChoices env ?h1 ?st (choices r)")
      from processChoices_history [OF run] obtain evs where
        h1: "h1 = ?h1 @ evs" and s1: "stops_at_failure env ?h1 evs (thrown r1)"
        by (elim exE conjE)
      from assms Inr False run have "h' = h1" "thrown res = thrown r1"
        by (auto simp: processQuery_try_def split: sum.splits)
      with h1 s1 Inr have "h' = h @ (Completion ?req # evs)"
        "stops_at_failure env h (Completion ?req # evs) (thrown res)"
        by simp_all
      then show ?thesis by (intro exI [of _ "Completion ?req # evs"] conjI)
    qed
  qed
qed

lemma processQuery_answer:
  "processQuery env tools h query =
     (case processQuery_try env tools h query of
        (res, h') \<Rightarrow> ((case res of Inl e \<Rightarrow> ''Error: '' @ error_text e | Inr s \<Rightarrow> s), h'))"
  by (simp add: processQuery_def split: prod.splits sum.splits)

lemma pushContent_append: "pushContent m (xs @ ys) = xs @ pushContent m ys"
  by (simp add: pushContent_def split: option.splits)

lemma processChoices_no_calls:
  "\<forall>c \<in> set cs. tool_calls (message c) = None \<or> tool_calls (message c) = Some [] \<Longrightarrow>
   processChoices env h st cs =
     (Inr (st\<lparr>finalText := finalText st @ concat (map (\<lambda>c. pushContent (message c) []) cs)\<rparr>), h)"
proof (induction cs arbitrary: st)
  case Nil
  then show ?case by simp
next
  case (Cons c cs)
  have "pushContent (message c) (finalText st) = finalText st @ pushContent (message c) []"
    using pushContent_append [of "message c" "finalText st" "[]"] by simp
  with Cons show ?case by auto
qed


section \<open>A reply without tool calls\<close>



section \<open>A failing chat endpoint\<close>

text \<open>
  Claim C7. When a call of the chat endpoint throws during a query, be it the first
  completion or a follow-up, that call is the last event of the query (it is not issued
  again, and nothing follows it), the answer of the query is the string
  \<^verbatim>\<open>Error: \<close> followed by the exception's message, and the chat loop prints that answer
  and goes on with the next line of input.
\<close>

theorem gateway_failure_reported_once:
  "\<exists>evs. snd (processQuery env tools h query) = h @ evs
     \<and> (\<forall>pre req post e.
           evs = pre @ Completion req # post \<and> create env (h @ pre) req = Inl e
           \<longrightarrow> post = [] \<and> fst (processQuery env tools h query) = ''Error: '' @ error_text e)
     \<and> (toLowerCase query \<noteq> ''quit''
           \<longrightarrow> chatLoop env tools h (query # rest)
               = (case chatLoop env tools (snd (processQuery env tools h query)) rest of
                    (printed, h'', stop) \<Rightarrow>
                      ((newline @ fst (processQuery env tools h query)) # printed, h'', stop)))"
proof -
  obtain res h' where run: "processQuery_try env tools h query = (res, h')"
    by (cases "processQuery_try env tools h query")
  from processQuery_try_history [OF run] obtain evs where
    h': "h' = h @ evs" and stops: "stops_at_failure env h evs (thrown res)"
    by (elim exE conjE)
  have answer: "processQuery env tools h query =
      ((case res of Inl e \<Rightarrow> ''Error: '' @ error_text e | Inr s \<Rightarrow> s), h')"
    using run by (simp add: processQuery_answer)
  have last: "post = [] \<and> fst (processQuery env tools h query) = ''Error: '' @ error_text e"
    if "evs = pre @ Completion req # post" and "create env (h @ pre) req = Inl e"
    for pre req post e
  proof -
    from that(2) have "event_error env (h @ pre) (Completion req) = Some e" by simp
    from failure_is_last [OF stops [unfolded that(1)] this]
    have "post = []" and "thrown res = Some e" by simp_all
    then show ?thesis using answer by (cases res) simp_all
  qed
  have loop: "toLowerCase query \<noteq> ''quit'' \<longrightarrow>
      chatLoop env tools h (query # rest)
        = (case chatLoop env tools (snd (processQuery env tools h query)) rest of
             (printed, h'', stop) \<Rightarrow>
               ((newline @ fst (processQuery env tools h query)) # printed, h'', stop))"
    by (simp split: prod.splits)
  have "snd (processQuery env tools h query) = h @ evs" using answer h' by simp
  moreover have "\<forall>pre req post e.
           evs = pre @ Completion req # post \<and> create env (h @ pre) req = Inl e
           \<longrightarrow> post = [] \<and> fst (processQuery env tools h query) = ''Error: '' @ error_text e"
    using last by (intro allI impI) (elim conjE)
  ultimately show ?thesis using loop by (intro exI [of _ evs] conjI)
qed

theorem gateway_failure_reported_once_witness:
  "processQuery
     (scripted [Inl (ErrorObject ''401 Authentication Fails''),
                Inr \<lparr>choices = [candidate (Some ''Hello'') None]\<rparr>] [])
     [] [] ''hi''
     = (''Error: 401 Authentication Fails'', [Completion (firstRequest [] [userMessage (Text ''hi'')])])
   \<and> chatLoop
     (scripted [Inl (ErrorObject ''401 Authentication Fails''),
                Inr \<lparr>choices = [candidate (Some ''Hello'') None]\<rparr>] [])
     [] [] [''hi'', ''again'', ''quit'']
     = ([newline @ ''Error: 401 Authentication Fails'', newline @ ''Hello''],
        [Completion (firstRequest [] [userMessage (Text ''hi'')]),
         Completion (firstRequest [] [userMessage (Text ''again'')])],
        Break)"
proof -
  let ?env = "scripted [Inl (ErrorObject ''401 Authentication Fails''),
                        Inr \<lparr>choices = [candidate (Some ''Hello'') None]\<rparr>] []"
  let ?req = "firstRequest [] [userMessage (Text ''hi'')]"
  let ?e = "ErrorObject ''401 Authentication Fails''"
  from gateway_failure_reported_once
         [where env = ?env and tools = "[]" and h = "[]" and query = "''hi''"
            and rest = "[''again'', ''quit'']"]
  obtain evs where
    hist: "snd (processQuery ?env [] [] ''hi'') = [] @ evs"
    and fails: "\<forall>pre req post e.
       evs = pre @ Completion req # post \<and> create ?env ([] @ pre) req = Inl e
       \<longrightarrow> post = [] \<and> fst (processQuery ?env [] [] ''hi'') = ''Error: '' @ error_text e"
    and continues: "toLowerCase ''hi'' \<noteq> ''quit''
       \<longrightarrow> chatLoop ?env [] [] (''hi'' # [''again'', ''quit''])
           = (case chatLoop ?env [] (snd (processQuery ?env [] [] ''hi'')) [''again'', ''quit''] of
                (printed, h'', stop) \<Rightarrow>
                  ((newline @ fst (processQuery ?env [] [] ''hi'')) # printed, h'', stop))"
    by (elim exE conjE)
  have events: "snd (processQuery ?env [] [] ''hi'') = [Completion ?req]"
    by code_simp
  have split: "evs = [] @ Completion ?req # []"
    using hist events by simp
  have failed: "create ?env ([] @ []) ?req = Inl ?e"
    by (simp add: scripted_def)
  from fails [rule_format, OF conjI [OF split failed]]
  have answer: "fst (processQuery ?env [] [] ''hi'') = ''Error: 401 Authentication Fails''"
    by simp
  have not_quit: "toLowerCase ''hi'' \<noteq> ''quit''"
    by code_simp
  have next_query: "chatLoop ?env [] [Completion ?req] [''again'', ''quit'']
      = ([newline @ ''Hello''],
         [Completion ?req, Completion (firstRequest [] [userMessage (Text ''again'')])], Break)"
    by code_simp
  from continues not_quit events answer next_query
  have "chatLoop ?env [] [] [''hi'', ''again'', ''quit'']
      = ([newline @ ''Error: 401 Authentication Fails'', newline @ ''Hello''],
         [Completion ?req, Completion (firstRequest [] [userMessage (Text ''again'')])], Break)"
    by simp
  moreover have "processQuery ?env [] [] ''hi'' = (''Error: 401 Authentication Fails'', [Completion ?req])"
    using answer events by (simp add: prod_eq_iff)
  ultimately show ?thesis by (intro conjI)
qed

section \<open>The sentinel\<close>






section \<open>Every tool call gets its own follow-up\<close>

lemma eventsOf_Nil: "eventsOf ms tcs [] = []"
  by (simp add: eventsOf_def)

lemma eventsOf_Cons:
  "eventsOf ms (tc # tcs) (s # ss) =
     CallTool (call_name tc) (step_args s) #
     Completion (followUpRequest (ms @ [toolMessage (step_result s)])) #
     eventsOf (ms @ [toolMessage (step_result s)]) tcs ss"
proof -
  have "[0..<length (s # ss)] = 0 # map Suc [0..<length ss]"
    by (simp add: upt_conv_Cons map_Suc_upt del: upt_Suc)
  then show ?thesis
    by (simp add: eventsOf_def followUpRequest_def comp_def del: upt_Suc)
qed

lemma narration_pushContent:
  "pushContent (step_reply s) (out @ [traceLine env (call_name tc) (step_args s)]) = out @ narration env tc s"
  by (simp add: pushContent_def narration_def split: option.splits)

lemma processToolCalls_replays:
  "replays env h (messages st) tcs ss \<Longrightarrow>
   processToolCalls env h st tcs =
     (Inr \<lparr>messages = messages st @ map (\<lambda>s. toolMessage (step_result s)) ss,
           finalText = finalText st @ concat (map2 (narration env) tcs ss)\<rparr>,
      h @ eventsOf (messages st) tcs ss)"
proof (induction tcs ss arbitrary: h st rule: list_induct2')
  case 1
  then show ?case by (simp add: eventsOf_Nil)
next
  case (2 tc tcs)
  then show ?case by simp
next
  case (3 s ss)
  then show ?case by simp
next
  case (4 tc tcs s ss)
  let ?a = "step_args s" and ?r = "step_result s"
  let ?ms = "messages st @ [toolMessage ?r]"
  let ?h2 = "h @ [CallTool (call_name tc) ?a, Completion (followUpRequest ?ms)]"
  from "4.prems" have p: "JSON_parse env (call_arguments tc) = Inr ?a"
    and ct: "callTool env h (call_name tc) ?a = Inr ?r"
    and rest: "replays env ?h2 ?ms tcs ss"
    by simp_all
  from "4.prems" obtain resp c cs where
    cr: "create env (h @ [CallTool (call_name tc) ?a]) (followUpRequest ?ms) = Inr resp"
    and ch: "choices resp = c # cs" and m: "message c = step_reply s"
    by (auto split: sum.splits list.splits)
  let ?st1 = "\<lparr>messages = ?ms,
               finalText = pushContent (message c) (finalText st @ [traceLine env (call_name tc) ?a])\<rparr>"
  have step: "processToolCall env h st tc = (Inr ?st1, ?h2)"
    by (rule processToolCall_success [OF p ct cr ch])
  have "replays env ?h2 (messages ?st1) tcs ss" using rest by simp
  from "4.IH" [OF this]
  have "processToolCalls env ?h2 ?st1 tcs =
     (Inr \<lparr>messages = messages ?st1 @ map (\<lambda>s. toolMessage (step_result s)) ss,
           finalText = finalText ?st1 @ concat (map2 (narration env) tcs ss)\<rparr>,
      ?h2 @ eventsOf (messages ?st1) tcs ss)" .
  with step m show ?case
    by (simp add: eventsOf_Cons narration_pushContent)
qed




section \<open>Tool calls run one after the other\<close>

text \<open>
  Claim C4. For a reply with the tool calls \<open>[A, B]\<close>: when A's arguments parse, A's
  execution returns, A's follow-up completion returns a candidate and B's arguments parse
  (so that B is executed at all), the events of the query are, in this order, the first
  completion, the execution of A, the follow-up completion for A, whose transcript is the
  query and A's output and nothing else, and only then the execution of B; B's output
  appears in the transcript of B's own follow-up alone.
\<close>

theorem tool_calls_run_in_order:
  fixes env :: "'j env"
  assumes first: "create env h (firstRequest tools [userMessage (Text query)]) = Inr r"
      and one: "choices r = [c]"
      and calls: "tool_calls (message c) = Some [A, B]"
      and parseA: "JSON_parse env (call_arguments A) = Inr a"
      and resultA: "callTool env (h @ [Completion (firstRequest tools [userMessage (Text query)])])
                      (call_name A) a = Inr ra"
      and followA: "create env
                      (h @ [Completion (firstRequest tools [userMessage (Text query)]),
                            CallTool (call_name A) a])
                      (followUpRequest [userMessage (Text query), toolMessage ra]) = Inr f"
      and candA: "choices f \<noteq> []"
      and parseB: "JSON_parse env (call_arguments B) = Inr b"
  shows "snd (processQuery env tools h query) =
           h @ [Completion (firstRequest tools [userMessage (Text query)]),
                CallTool (call_name A) a,
                Completion (followUpRequest [userMessage (Text query), toolMessage ra]),
                CallTool (call_name B) b]
             @ (case callTool env
                       (h @ [Completion (firstRequest tools [userMessage (Text query)]),
                             CallTool (call_name A) a,
                             Completion (followUpRequest [userMessage (Text query), toolMessage ra])])
                       (call_name B) b of
                  Inl e \<Rightarrow> []
                | Inr rb \<Rightarrow>
                    [Completion (followUpRequest
                       [userMessage (Text query), toolMessage ra, toolMessage rb])])"
proof -
  let ?req = "firstRequest tools [userMessage (Text query)]"
  let ?h1 = "h @ [Completion ?req]"
  let ?st1 = "\<lparr>messages = [userMessage (Text query)], finalText = pushContent (message c) []\<rparr> :: 'j locals"
  let ?fa = "followUpRequest [userMessage (Text query), toolMessage ra]"
  let ?h3 = "h @ [Completion ?req, CallTool (call_name A) a, Completion ?fa]"
  obtain c1 cs1 where cf: "choices f = c1 # cs1"
    using candA by (cases "choices f") simp_all
  let ?st2 = "\<lparr>messages = [userMessage (Text query), toolMessage ra],
               finalText = pushContent (message c1)
                 (pushContent (message c) [] @ [traceLine env (call_name A) a])\<rparr> :: 'j locals"
  have stepA: "processToolCall env ?h1 ?st1 A = (Inr ?st2, ?h3)"
    using processToolCall_success [OF parseA, where h = ?h1 and st = ?st1 and r = ra
        and resp = f and c = c1 and cs = cs1] resultA followA cf
    by simp
  obtain res h4 where stepB: "processToolCall env ?h3 ?st2 B = (res, h4)"
    by (cases "processToolCall env ?h3 ?st2 B")
  have h4: "h4 = ?h3 @ CallTool (call_name B) b #
      (case callTool env ?h3 (call_name B) b of
         Inl e \<Rightarrow> []
       | Inr rb \<Rightarrow>
           [Completion (followUpRequest
              [userMessage (Text query), toolMessage ra, toolMessage rb])])"
    using stepB parseB
    by (auto simp: processToolCall_def Let_def split: sum.splits list.splits)
  have loop: "processToolCalls env ?h1 ?st1 [A, B] =
      (case res of Inl e \<Rightarrow> (Inl e, h4) | Inr st' \<Rightarrow> (Inr st', h4))"
    using stepA stepB by (simp split: sum.splits)
  have "snd (processQuery env tools h query) = h4"
  proof (cases res)
    case (Inl e)
    with loop first one calls show ?thesis
      by (simp add: processQuery_def processQuery_try_def Let_def)
  next
    case (Inr st')
    with loop first one calls show ?thesis
      by (simp add: processQuery_def processQuery_try_def Let_def)
  qed
  with h4 show ?thesis by simp
qed


theorem tool_calls_run_in_order_witness:
  "snd (processQuery orderEnv [] [] ''copy'')
     = [Completion (firstRequest [] [userMessage (Text ''copy'')]),
        CallTool ''read_file'' ''{}'',
        Completion (followUpRequest
          [userMessage (Text ''copy''), userMessage (Payload ''contents of a'')]),
        CallTool ''write_file'' ''{}'']"
proof -
  let ?req = "firstRequest [] [userMessage (Text ''copy'')] :: string request"
  let ?c = "candidate (Some ''Copying.'') (Some orderCalls)"
  let ?A = "\<lparr>call_name = ''read_file'', call_arguments = ''{}''\<rparr>"
  let ?B = "\<lparr>call_name = ''write_file'', call_arguments = ''{}''\<rparr>"
  let ?ra = "\<lparr>result_content = ''contents of a'', isError = False\<rparr>"
  let ?f = "\<lparr>choices = [candidate (Some ''Read a.'') None]\<rparr>"
  have first: "create orderEnv [] ?req = Inr \<lparr>choices = [?c]\<rparr>"
    by (simp add: orderEnv_def scripted_def)
  have one: "choices \<lparr>choices = [?c]\<rparr> = [?c]"
    by simp
  have calls: "tool_calls (message ?c) = Some [?A, ?B]"
    by (simp add: candidate_def orderCalls_def)
  have parseA: "JSON_parse orderEnv (call_arguments ?A) = Inr ''{}''"
    by (simp add: orderEnv_def scripted_def parseExample_def)
  have resultA: "callTool orderEnv ([] @ [Completion ?req]) (call_name ?A) ''{}'' = Inr ?ra"
    by (simp add: orderEnv_def scripted_def)
  have followA: "create orderEnv ([] @ [Completion ?req, CallTool (call_name ?A) ''{}''])
                   (followUpRequest [userMessage (Text ''copy''), toolMessage ?ra]) = Inr ?f"
    by (simp add: orderEnv_def scripted_def)
  have candA: "choices ?f \<noteq> []"
    by simp
  have parseB: "JSON_parse orderEnv (call_arguments ?B) = Inr ''{}''"
    by (simp add: orderEnv_def scripted_def parseExample_def)
  have resultB: "callTool orderEnv
      ([] @ [Completion ?req, CallTool (call_name ?A) ''{}'',
             Completion (followUpRequest [userMessage (Text ''copy''), toolMessage ?ra])])
      (call_name ?B) ''{}'' = Inl (ErrorObject ''Connection closed'')"
    by (simp add: orderEnv_def scripted_def)
  show ?thesis
    using tool_calls_run_in_order [OF first one calls parseA resultA followA candA parseB] resultB
    by (simp add: toolMessage_def)
qed

section \<open>The transcript of a follow-up completion\<close>

lemma toolMessage_record:
  "toolMessage r = \<lparr>role = ''user'', content = Payload (result_content r)\<rparr>"
  by (simp add: toolMessage_def userMessage_def)

lemma followUpRequest_record:
  "followUpRequest ms =
     \<lparr>req_model = ''deepseek-chat'', req_max_tokens = 1000, req_messages = ms, req_tools = None\<rparr>"
  by (simp add: followUpRequest_def)

lemma processToolCalls_conform:
  "processToolCalls env h st tcs = (res, h') \<Longrightarrow>
   \<exists>evs. h' = h @ evs \<and>
     (case res of
        Inl e \<Rightarrow> followUps_conform env h (messages st) (tcs @ later) evs
      | Inr st' \<Rightarrow>
          (\<forall>evs'. followUps_conform env h' (messages st') later evs'
             \<longrightarrow> followUps_conform env h (messages st) (tcs @ later) (evs @ evs')))"
proof (induction tcs arbitrary: h st)
  case Nil
  then show ?case by auto
next
  case (Cons tc tcs)
  show ?case
  proof (cases rule: processToolCall_cases [of env tc h st])
    case (parse_error e)
    with Cons.prems have "res = Inl e" "h' = h" by simp_all
    then show ?thesis by simp
  next
    case (callTool_error a e)
    with Cons.prems have "res = Inl e" "h' = h @ [CallTool (call_name tc) a]" by simp_all
    with callTool_error show ?thesis by simp
  next
    case (followUp_error a r e)
    with Cons.prems have "res = Inl e"
      "h' = h @ [CallTool (call_name tc) a, Completion (followUpRequest (messages st @ [toolMessage r]))]"
      by simp_all
    with followUp_error show ?thesis
      by (simp add: toolMessage_record followUpRequest_record)
  next
    case (followUp_empty a r resp)
    with Cons.prems have "res = Inl undefined_message"
      "h' = h @ [CallTool (call_name tc) a, Completion (followUpRequest (messages st @ [toolMessage r]))]"
      by simp_all
    with followUp_empty show ?thesis
      by (simp add: toolMessage_record followUpRequest_record)
  next
    case (success a r resp c cs)
    let ?ms = "messages st @ [toolMessage r]"
    let ?h1 = "h @ [CallTool (call_name tc) a, Completion (followUpRequest ?ms)]"
    let ?st1 = "\<lparr>messages = ?ms,
                 finalText = pushContent (message c) (finalText st @ [traceLine env (call_name tc) a])\<rparr>"
    from success Cons.prems have rest: "processToolCalls env ?h1 ?st1 tcs = (res, h')" by simp
    from Cons.IH [OF rest] obtain evs where
      h': "h' = ?h1 @ evs"
      and c: "case res of
          Inl e \<Rightarrow> followUps_conform env ?h1 (messages ?st1) (tcs @ later) evs
        | Inr st' \<Rightarrow>
            (\<forall>evs'. followUps_conform env h' (messages st') later evs'
               \<longrightarrow> followUps_conform env ?h1 (messages ?st1) (tcs @ later) (evs @ evs'))"
      by (elim exE conjE)
    let ?evs = "CallTool (call_name tc) a # Completion (followUpRequest ?ms) # evs"
    have "h' = h @ ?evs" using h' by simp
    moreover have "case res of
          Inl e \<Rightarrow> followUps_conform env h (messages st) ((tc # tcs) @ later) ?evs
        | Inr st' \<Rightarrow>
            (\<forall>evs'. followUps_conform env h' (messages st') later evs'
               \<longrightarrow> followUps_conform env h (messages st) ((tc # tcs) @ later) (?evs @ evs'))"
      using c success(1,2) by (cases res) (simp_all add: toolMessage_record followUpRequest_record)
    ultimately show ?thesis by (intro exI [of _ ?evs] conjI)
  qed
qed

lemma requestedCalls_Cons:
  "requestedCalls \<lparr>choices = c # cs\<rparr> =
     (case tool_calls (message c) of None \<Rightarrow> [] | Some calls \<Rightarrow> calls)
       @ requestedCalls \<lparr>choices = cs\<rparr>"
  by (simp add: requestedCalls_def)

lemma processChoices_conform:
  "processChoices env h st cs = (res, h') \<Longrightarrow>
   \<exists>evs. h' = h @ evs \<and>
     (case res of
        Inl e \<Rightarrow> followUps_conform env h (messages st) (requestedCalls \<lparr>choices = cs\<rparr> @ later) evs
      | Inr st' \<Rightarrow>
          (\<forall>evs'. followUps_conform env h' (messages st') later evs'
             \<longrightarrow> followUps_conform env h (messages st)
                   (requestedCalls \<lparr>choices = cs\<rparr> @ later) (evs @ evs')))"
proof (induction cs arbitrary: h st)
  case Nil
  then show ?case by (auto simp: requestedCalls_def)
next
  case (Cons c cs)
  let ?st1 = "st\<lparr>finalText := pushContent (message c) (finalText st)\<rparr>"
  let ?rest = "requestedCalls \<lparr>choices = cs\<rparr> @ later"
  show ?case
  proof (cases "tool_calls (message c)")
    case None
    with Cons.prems have run: "processChoices env h ?st1 cs = (res, h')" by simp
    have calls: "requestedCalls \<lparr>choices = c # cs\<rparr> = requestedCalls \<lparr>choices = cs\<rparr>"
      using None by (simp add: requestedCalls_Cons)
    have "messages ?st1 = messages st" by simp
    with Cons.IH [OF run] show ?thesis
      unfolding calls by (simp only:)
  next
    case (Some calls)
    obtain r1 h1 where loop: "processToolCalls env h ?st1 calls = (r1, h1)"
      by (cases "processToolCalls env h ?st1 calls")
    from processToolCalls_conform [OF loop, of ?rest] obtain evs1 where
      h1: "h1 = h @ evs1"
      and c1: "case r1 of
          Inl e \<Rightarrow> followUps_conform env h (messages ?st1) (calls @ ?rest) evs1
        | Inr st' \<Rightarrow>
            (\<forall>evs'. followUps_conform env h1 (messages st') ?rest evs'
               \<longrightarrow> followUps_conform env h (messages ?st1) (calls @ ?rest) (evs1 @ evs'))"
      by (elim exE conjE)
    show ?thesis
    proof (cases r1)
      case (Inl e)
      with Cons.prems Some loop have "res = Inl e" "h' = h1" by simp_all
      with h1 c1 Inl Some show ?thesis
        by (simp add: requestedCalls_Cons)
    next
      case (Inr st2)
      with Cons.prems Some loop have run: "processChoices env h1 st2 cs = (res, h')" by simp
      from Cons.IH [OF run] obtain evs2 where
        h2: "h' = h1 @ evs2"
        and c2: "case res of
            Inl e \<Rightarrow> followUps_conform env h1 (messages st2) ?rest evs2
          | Inr st' \<Rightarrow>
              (\<forall>evs'. followUps_conform env h' (messages st') later evs'
                 \<longrightarrow> followUps_conform env h1 (messages st2) ?rest (evs2 @ evs'))"
        by (elim exE conjE)
      from c1 Inr have step: "followUps_conform env h1 (messages st2) ?rest evs'
          \<Longrightarrow> followUps_conform env h (messages st) (calls @ ?rest) (evs1 @ evs')" for evs'
        by simp
      have "h' = h @ (evs1 @ evs2)" using h1 h2 by simp
      moreover have "case res of
          Inl e \<Rightarrow> followUps_conform env h (messages st)
                     (requestedCalls \<lparr>choices = c # cs\<rparr> @ later) (evs1 @ evs2)
        | Inr st' \<Rightarrow>
            (\<forall>evs'. followUps_conform env h' (messages st') later evs'
               \<longrightarrow> followUps_conform env h (messages st)
                     (requestedCalls \<lparr>choices = c # cs\<rparr> @ later) ((evs1 @ evs2) @ evs'))"
      proof (cases res)
        case (Inl e)
        with c2 have "followUps_conform env h1 (messages st2) ?rest evs2" by simp
        from step [OF this] Inl Some show ?thesis
          by (simp add: requestedCalls_Cons)
      next
        case (Inr st')
        have "followUps_conform env h (messages st) (calls @ ?rest) (evs1 @ evs2 @ evs')"
          if "followUps_conform env h' (messages st') later evs'" for evs'
        proof -
          from c2 Inr that have "followUps_conform env h1 (messages st2) ?rest (evs2 @ evs')"
            by simp
          from step [OF this] show ?thesis .
        qed
        with Inr Some show ?thesis
          by (simp add: requestedCalls_Cons)
      qed
      ultimately show ?thesis by (intro exI [of _ "evs1 @ evs2"] conjI)
    qed
  qed
qed

text \<open>
  Claim C1, as stated, fails. The loop never appends the assistant's tool-call message:
  after one tool call the follow-up completion is passed two messages, the query and the
  tool's output, both of role user, and not the three the claim describes.
\<close>

theorem followUp_transcript_counterexample:
  "followUpTranscripts (snd (processQuery listEnv [] [] ''list''))
     = [[\<lparr>role = ''user'', content = Text ''list''\<rparr>,
         \<lparr>role = ''user'', content = Payload ''a.txt''\<rparr>]]
   \<and> [\<lparr>role = ''user'', content = Text ''list''\<rparr>,
       \<lparr>role = ''user'', content = Payload ''a.txt''\<rparr>]
     \<noteq> spec_followUp_transcript
         [\<lparr>role = ''user'', content = Text ''list''\<rparr>]
         \<lparr>role = ''assistant'', content = Text []\<rparr>
         [\<lparr>role = ''user'', content = Payload ''a.txt''\<rparr>]"
proof -
  have "snd (processQuery listEnv [] [] ''list'')
      = [Completion (firstRequest [] [userMessage (Text ''list'')]),
         CallTool ''list_directory'' ''{}'',
         Completion (followUpRequest
           [userMessage (Text ''list''), userMessage (Payload ''a.txt'')])]"
    by code_simp
  then show ?thesis
    by (simp add: firstRequest_def followUpRequest_def userMessage_def spec_followUp_transcript_def)
qed

text \<open>
  Claim C1, amended. On each follow-up round-trip the transcript passed to the chat
  endpoint is the transcript of the round-trip before with one message appended: the
  content of the result of the tool call just executed, as a message of role user (the
  assistant's tool-call message is not appended). The tool calls are executed, and their
  outputs appended, in the order they were requested. This holds for every query, also
  one that is aborted by an exception (\<open>followUps_conform\<close>).
\<close>

theorem followUp_transcript_grows_by_tool_output:
  fixes env :: "'j env"
  assumes "create env h (firstRequest tools [userMessage (Text query)]) = Inr r"
  shows "\<exists>evs. snd (processQuery env tools h query)
                 = h @ Completion (firstRequest tools [userMessage (Text query)]) # evs
           \<and> followUps_conform env (h @ [Completion (firstRequest tools [userMessage (Text query)])])
                [\<lparr>role = ''user'', content = Text query\<rparr>] (requestedCalls r) evs"
proof (cases "choices r = []")
  case True
  with assms have "snd (processQuery env tools h query)
      = h @ Completion (firstRequest tools [userMessage (Text query)]) # []"
    by (simp add: processQuery_def processQuery_try_def Let_def)
  then show ?thesis
    by (intro exI [of _ "[]"] conjI) simp_all
next
  case False
  let ?h1 = "h @ [Completion (firstRequest tools [userMessage (Text query)])]"
  let ?st0 = "\<lparr>messages = [userMessage (Text query)], finalText = []\<rparr> :: 'j locals"
  obtain res h' where run: "processChoices env ?h1 ?st0 (choices r) = (res, h')"
    by (cases "processChoices env ?h1 ?st0 (choices r)")
  from processChoices_conform [OF run, of "[]"] obtain evs where
    h': "h' = ?h1 @ evs"
    and c: "case res of
        Inl e \<Rightarrow> followUps_conform env ?h1 (messages ?st0) (requestedCalls \<lparr>choices = choices r\<rparr> @ []) evs
      | Inr st' \<Rightarrow>
          (\<forall>evs'. followUps_conform env h' (messages st') [] evs'
             \<longrightarrow> followUps_conform env ?h1 (messages ?st0)
                   (requestedCalls \<lparr>choices = choices r\<rparr> @ []) (evs @ evs'))"
    by (elim exE conjE)
  have same: "requestedCalls \<lparr>choices = choices r\<rparr> = requestedCalls r"
    by (simp add: requestedCalls_def)
  have conf: "followUps_conform env ?h1 [\<lparr>role = ''user'', content = Text query\<rparr>] (requestedCalls r) evs"
  proof (cases res)
    case (Inl e)
    with c same show ?thesis by (simp add: userMessage_def)
  next
    case (Inr st')
    with c have "followUps_conform env h' (messages st') [] []
        \<longrightarrow> followUps_conform env ?h1 (messages ?st0) (requestedCalls \<lparr>choices = choices r\<rparr> @ []) (evs @ [])"
      by (simp del: append_Nil2)
    with same show ?thesis by (simp add: userMessage_def)
  qed
  have "snd (processQuery env tools h query) = h'"
    using assms False run
    by (cases res) (simp_all add: processQuery_def processQuery_try_def Let_def)
  with h' have "snd (processQuery env tools h query)
      = h @ Completion (firstRequest tools [userMessage (Text query)]) # evs"
    by simp
  with conf show ?thesis by (intro exI [of _ evs] conjI)
qed


theorem followUp_transcript_grows_by_tool_output_witness:
  "snd (processQuery weatherEnv [] [] ''weather'')
     = Completion (firstRequest [] [userMessage (Text ''weather'')])
         # [CallTool ''get-weather'' ''{}'',
            Completion (followUpRequest
              [userMessage (Text ''weather''), userMessage (Payload ''sunny, 25'')]),
            CallTool ''get-air-quality'' ''{}'',
            Completion (followUpRequest
              [userMessage (Text ''weather''), userMessage (Payload ''sunny, 25''),
               userMessage (Payload ''good'')])]
   \<and> followUps_conform weatherEnv
         [Completion (firstRequest [] [userMessage (Text ''weather'')])]
         [\<lparr>role = ''user'', content = Text ''weather''\<rparr>]
         (requestedCalls \<lparr>choices = [candidate None (Some weatherCalls)]\<rparr>)
         [CallTool ''get-weather'' ''{}'',
          Completion (followUpRequest
            [userMessage (Text ''weather''), userMessage (Payload ''sunny, 25'')]),
          CallTool ''get-air-quality'' ''{}'',
          Completion (followUpRequest
            [userMessage (Text ''weather''), userMessage (Payload ''sunny, 25''),
             userMessage (Payload ''good'')])]"
proof -
  let ?req = "firstRequest [] [userMessage (Text ''weather'')] :: string request"
  let ?r = "\<lparr>choices = [candidate None (Some weatherCalls)]\<rparr>"
  let ?evs = "[CallTool ''get-weather'' ''{}'',
            Completion (followUpRequest
              [userMessage (Text ''weather''), userMessage (Payload ''sunny, 25'')]),
            CallTool ''get-air-quality'' ''{}'',
            Completion (followUpRequest
              [userMessage (Text ''weather''), userMessage (Payload ''sunny, 25''),
               userMessage (Payload ''good'')])]"
  have first: "create weatherEnv [] ?req = Inr ?r"
    by (simp add: weatherEnv_def scripted_def)
  from followUp_transcript_grows_by_tool_output [OF first] obtain evs where
    hist: "snd (processQuery weatherEnv [] [] ''weather'') = [] @ Completion ?req # evs"
    and conf: "followUps_conform weatherEnv ([] @ [Completion ?req])
                 [\<lparr>role = ''user'', content = Text ''weather''\<rparr>] (requestedCalls ?r) evs"
    by (elim exE conjE)
  have run: "snd (processQuery weatherEnv [] [] ''weather'') = Completion ?req # ?evs"
    by code_simp
  with hist have "evs = ?evs" by simp
  with hist conf show ?thesis by simp
qed

section \<open>A failing tool call\<close>













section \<open>Candidate replies\<close>

lemma processToolCall_truncateFollowUps:
  "processToolCall (truncateFollowUps env) h st tc = processToolCall env h st tc"
  by (cases rule: processToolCall_cases [of env tc h st])
     (simp_all add: processToolCall_def truncateFollowUps_def firstCandidateOnly_def
        followUpRequest_def traceLine_def Let_def)

lemma processToolCalls_truncateFollowUps:
  "processToolCalls (truncateFollowUps env) h st tcs = processToolCalls env h st tcs"
  by (induction tcs arbitrary: h st)
     (simp_all add: processToolCall_truncateFollowUps split: prod.splits sum.splits)

lemma processChoices_truncateFollowUps:
  "processChoices (truncateFollowUps env) h st cs = processChoices env h st cs"
  by (induction cs arbitrary: h st)
     (simp_all add: processToolCalls_truncateFollowUps Let_def split: prod.splits sum.splits option.splits)

lemma processQuery_truncateFollowUps:
  "processQuery (truncateFollowUps env) tools h query = processQuery env tools h query"
proof -
  have "create (truncateFollowUps env) h (firstRequest tools [userMessage (Text query)])
      = create env h (firstRequest tools [userMessage (Text query)])"
    by (simp add: truncateFollowUps_def firstRequest_def)
  then show ?thesis
    by (simp add: processQuery_def processQuery_try_def processChoices_truncateFollowUps Let_def
          split: sum.splits)
qed

lemma replays_length: "replays env h ms tcs ss \<Longrightarrow> length ss = length tcs"
  by (induction env h ms tcs ss rule: replays.induct) simp_all

lemma eventsOf_append:
  "length ss = length xs + length ys \<Longrightarrow>
   eventsOf ms (xs @ ys) ss =
     eventsOf ms xs (take (length xs) ss)
       @ eventsOf (ms @ map (\<lambda>s. toolMessage (step_result s)) (take (length xs) ss)) ys
           (drop (length xs) ss)"
proof (induction xs arbitrary: ms ss)
  case Nil
  then show ?case by (simp add: eventsOf_Nil)
next
  case (Cons x xs)
  then obtain s ss' where ss: "ss = s # ss'" by (cases ss) simp_all
  with Cons.prems have "length ss' = length xs + length ys" by simp
  from Cons.IH [OF this, of "ms @ [toolMessage (step_result s)]"] ss
  show ?case by (simp add: eventsOf_Cons)
qed

lemma replays_append:
  "replays env h ms (xs @ ys) ss \<Longrightarrow>
   replays env h ms xs (take (length xs) ss)
   \<and> replays env (h @ eventsOf ms xs (take (length xs) ss))
        (ms @ map (\<lambda>s. toolMessage (step_result s)) (take (length xs) ss)) ys
        (drop (length xs) ss)"
proof (induction xs arbitrary: h ms ss)
  case Nil
  then show ?case by (simp add: eventsOf_Nil)
next
  case (Cons x xs)
  then obtain s ss' where ss: "ss = s # ss'" by (cases ss) simp_all
  let ?h2 = "h @ [CallTool (call_name x) (step_args s),
                  Completion (followUpRequest (ms @ [toolMessage (step_result s)]))]"
  let ?ms2 = "ms @ [toolMessage (step_result s)]"
  from Cons.prems ss have rest: "replays env ?h2 ?ms2 (xs @ ys) ss'" by simp
  from Cons.IH [OF rest] Cons.prems ss show ?case
    by (simp add: eventsOf_Cons)
qed

lemma processChoices_replays:
  "replays env h (messages st) (requestedCalls \<lparr>choices = cs\<rparr>) ss \<Longrightarrow>
   processChoices env h st cs =
     (Inr \<lparr>messages = messages st @ map (\<lambda>s. toolMessage (step_result s)) ss,
           finalText = finalText st @ candidateOutputs env cs ss\<rparr>,
      h @ eventsOf (messages st) (requestedCalls \<lparr>choices = cs\<rparr>) ss)"
proof (induction cs arbitrary: h st ss)
  case Nil
  then have "ss = []" by (cases ss) (simp_all add: requestedCalls_def)
  then show ?case by (simp add: eventsOf_Nil)
next
  case (Cons c cs)
  let ?st1 = "st\<lparr>finalText := pushContent (message c) (finalText st)\<rparr>"
  have pushed: "pushContent (message c) (finalText st) = finalText st @ pushContent (message c) []"
    using pushContent_append [of "message c" "finalText st" "[]"] by simp
  show ?case
  proof (cases "tool_calls (message c)")
    case None
    with Cons.prems have "replays env h (messages ?st1) (requestedCalls \<lparr>choices = cs\<rparr>) ss"
      by (simp add: requestedCalls_Cons)
    from Cons.IH [OF this] None pushed show ?thesis
      by (simp add: requestedCalls_Cons)
  next
    case (Some calls)
    let ?n = "length calls"
    let ?rest = "requestedCalls \<lparr>choices = cs\<rparr>"
    let ?out = "map (\<lambda>s. toolMessage (step_result s))"
    from Cons.prems Some have all: "replays env h (messages st) (calls @ ?rest) ss"
      by (simp add: requestedCalls_Cons)
    from replays_length [OF all] have len: "length ss = length calls + length ?rest" by simp
    from replays_append [OF all]
    have r1: "replays env h (messages ?st1) calls (take ?n ss)"
      and r2: "replays env (h @ eventsOf (messages st) calls (take ?n ss))
                 (messages st @ ?out (take ?n ss)) ?rest (drop ?n ss)"
      by simp_all
    let ?st2 = "\<lparr>messages = messages ?st1 @ ?out (take ?n ss),
                 finalText = finalText ?st1 @ concat (map2 (narration env) calls (take ?n ss))\<rparr>"
    let ?h2 = "h @ eventsOf (messages ?st1) calls (take ?n ss)"
    have loop: "processToolCalls env h ?st1 calls = (Inr ?st2, ?h2)"
      by (rule processToolCalls_replays [OF r1])
    have "replays env ?h2 (messages ?st2) ?rest (drop ?n ss)" using r2 by simp
    from Cons.IH [OF this]
    have rest: "processChoices env ?h2 ?st2 cs =
       (Inr \<lparr>messages = messages ?st2 @ ?out (drop ?n ss),
             finalText = finalText ?st2 @ candidateOutputs env cs (drop ?n ss)\<rparr>,
        ?h2 @ eventsOf (messages ?st2) ?rest (drop ?n ss))" .
    have msgs: "?out (take ?n ss) @ ?out (drop ?n ss) = ?out ss"
      by (simp flip: map_append)
    have evs: "eventsOf (messages st) (calls @ ?rest) ss =
        eventsOf (messages st) calls (take ?n ss)
          @ eventsOf (messages st @ ?out (take ?n ss)) ?rest (drop ?n ss)"
      by (rule eventsOf_append [OF len])
    from Some loop rest pushed msgs evs show ?thesis
      by (simp add: requestedCalls_Cons)
  qed
qed

text \<open>
  Claim C5, as stated, fails. The loop runs over all candidates of the first response: the
  text of a second candidate is appended to the answer and its tool call is executed, so
  the answer and the history differ from those of the same response with the first
  candidate alone.
\<close>

theorem later_candidates_counterexample:
  "processQuery
     (candidatesEnv [candidate (Some ''A'') None,
                     candidate (Some ''B'') (Some [\<lparr>call_name = ''t'', call_arguments = ''{}''\<rparr>])])
     [] [] ''q''
     = (''A'' @ newline @ ''B'' @ newline @ ''[Calling tool t with args {}]'' @ newline @ ''Done.'',
        [Completion (firstRequest [] [userMessage (Text ''q'')]),
         CallTool ''t'' ''{}'',
         Completion (followUpRequest [userMessage (Text ''q''), userMessage (Payload ''ok'')])])
   \<and> processQuery (candidatesEnv [candidate (Some ''A'') None]) [] [] ''q''
     = (''A'', [Completion (firstRequest [] [userMessage (Text ''q'')])])"
  by code_simp

text \<open>
  Claim C5, amended. Of the response to a follow-up completion the loop consumes the first
  candidate only: cutting the later candidates off every follow-up response changes neither
  the answer nor the history of a query. Of the response to the first completion it
  consumes every candidate, in the order returned, each from the state the candidates
  before it have left: when the collaborators answer the tool calls of all candidates
  (\<open>replays\<close>), the tool calls of every candidate are executed, each with its follow-up,
  in the order of the candidates, and the answer is, candidate by candidate, the
  candidate's text, if any, and then the trace line and follow-up text of each of its tool
  calls, joined by newlines. In particular, when no candidate carries tool calls, the
  answer is the non-empty texts of all candidates joined by newlines.
\<close>

theorem candidates_consumed:
  fixes env :: "'j env"
  shows
  "processQuery (truncateFollowUps env) tools h query = processQuery env tools h query
   \<and> processChoices env h' st (cs @ cs')
     = (case processChoices env h' st cs of
          (Inl e, h1) \<Rightarrow> (Inl e, h1)
        | (Inr st1, h1) \<Rightarrow> processChoices env h1 st1 cs')
   \<and> (create env h (firstRequest tools [userMessage (Text query)]) = Inr r \<and> choices r \<noteq> []
      \<and> (\<forall>c \<in> set (choices r). tool_calls (message c) = None \<or> tool_calls (message c) = Some [])
      \<longrightarrow> processQuery env tools h query
          = (join newline (concat (map (\<lambda>c. pushContent (message c) []) (choices r))),
             h @ [Completion (firstRequest tools [userMessage (Text query)])]))
   \<and> (create env h (firstRequest tools [userMessage (Text query)]) = Inr r \<and> choices r \<noteq> []
      \<and> replays env (h @ [Completion (firstRequest tools [userMessage (Text query)])])
            [userMessage (Text query)] (requestedCalls r) ss
      \<longrightarrow> processQuery env tools h query
          = (join newline (candidateOutputs env (choices r) ss),
             h @ Completion (firstRequest tools [userMessage (Text query)])
               # eventsOf [userMessage (Text query)] (requestedCalls r) ss))"
proof (intro conjI impI)
  show "processQuery (truncateFollowUps env) tools h query = processQuery env tools h query"
    by (rule processQuery_truncateFollowUps)
next
  show "processChoices env h' st (cs @ cs')
     = (case processChoices env h' st cs of
          (Inl e, h1) \<Rightarrow> (Inl e, h1)
        | (Inr st1, h1) \<Rightarrow> processChoices env h1 st1 cs')"
    by (rule processChoices_append)
next
  assume asm: "create env h (firstRequest tools [userMessage (Text query)]) = Inr r \<and> choices r \<noteq> []
      \<and> (\<forall>c \<in> set (choices r). tool_calls (message c) = None \<or> tool_calls (message c) = Some [])"
  then have none: "\<forall>c \<in> set (choices r). tool_calls (message c) = None \<or> tool_calls (message c) = Some []"
    by simp
  from processChoices_no_calls [OF none,
      where env = env and h = "h @ [Completion (firstRequest tools [userMessage (Text query)])]"
        and st = "\<lparr>messages = [userMessage (Text query)], finalText = []\<rparr>"]
  have "processChoices env (h @ [Completion (firstRequest tools [userMessage (Text query)])])
          \<lparr>messages = [userMessage (Text query)], finalText = []\<rparr> (choices r)
        = (Inr \<lparr>messages = [userMessage (Text query)],
                 finalText = concat (map (\<lambda>c. pushContent (message c) []) (choices r))\<rparr>,
           h @ [Completion (firstRequest tools [userMessage (Text query)])])"
    by simp
  with asm show "processQuery env tools h query
          = (join newline (concat (map (\<lambda>c. pushContent (message c) []) (choices r))),
             h @ [Completion (firstRequest tools [userMessage (Text query)])])"
    by (simp add: processQuery_def processQuery_try_def Let_def)
next
  let ?h1 = "h @ [Completion (firstRequest tools [userMessage (Text query)])]"
  let ?st0 = "\<lparr>messages = [userMessage (Text query)], finalText = []\<rparr> :: 'j locals"
  assume asm: "create env h (firstRequest tools [userMessage (Text query)]) = Inr r \<and> choices r \<noteq> []
      \<and> replays env ?h1 [userMessage (Text query)] (requestedCalls r) ss"
  have same: "requestedCalls \<lparr>choices = choices r\<rparr> = requestedCalls r"
    by (simp add: requestedCalls_def)
  from asm same have "replays env ?h1 (messages ?st0) (requestedCalls \<lparr>choices = choices r\<rparr>) ss"
    by simp
  from processChoices_replays [OF this] same
  have "processChoices env ?h1 ?st0 (choices r) =
     (Inr \<lparr>messages = messages ?st0 @ map (\<lambda>s. toolMessage (step_result s)) ss,
           finalText = finalText ?st0 @ candidateOutputs env (choices r) ss\<rparr>,
      ?h1 @ eventsOf (messages ?st0) (requestedCalls r) ss)"
    by simp
  with asm show "processQuery env tools h query
          = (join newline (candidateOutputs env (choices r) ss),
             h @ Completion (firstRequest tools [userMessage (Text query)])
               # eventsOf [userMessage (Text query)] (requestedCalls r) ss)"
    by (simp add: processQuery_def processQuery_try_def Let_def)
qed

theorem candidates_consumed_witness:
  "processQuery (candidatesEnv [candidate (Some ''A'') None, candidate (Some ''B'') (Some [])])
     [] [] ''q''
     = (''A'' @ newline @ ''B'', [Completion (firstRequest [] [userMessage (Text ''q'')])])
   \<and> processQuery
       (truncateFollowUps
          (candidatesEnv [candidate None (Some [\<lparr>call_name = ''t'', call_arguments = ''{}''\<rparr>])]))
       [] [] ''q''
     = processQuery
         (candidatesEnv [candidate None (Some [\<lparr>call_name = ''t'', call_arguments = ''{}''\<rparr>])])
         [] [] ''q''
   \<and> fst (processQuery
         (candidatesEnv [candidate None (Some [\<lparr>call_name = ''t'', call_arguments = ''{}''\<rparr>])])
         [] [] ''q'')
     = ''[Calling tool t with args {}]'' @ newline @ ''Done.''
   \<and> processQuery
       (candidatesEnv
          [candidate (Some ''A'') (Some [\<lparr>call_name = ''t'', call_arguments = ''{}''\<rparr>]),
           candidate (Some ''B'') (Some [\<lparr>call_name = ''u'', call_arguments = ''{}''\<rparr>])])
       [] [] ''q''
     = (''A'' @ newline @ ''[Calling tool t with args {}]'' @ newline @ ''Done.'' @ newline @
        ''B'' @ newline @ ''[Calling tool u with args {}]'' @ newline @ ''Done again.'',
        [Completion (firstRequest [] [userMessage (Text ''q'')]),
         CallTool ''t'' ''{}'',
         Completion (followUpRequest [userMessage (Text ''q''), userMessage (Payload ''ok'')]),
         CallTool ''u'' ''{}'',
         Completion (followUpRequest
           [userMessage (Text ''q''), userMessage (Payload ''ok''),
            userMessage (Payload ''ok again'')])])"
proof -
  let ?cs = "[candidate (Some ''A'') None, candidate (Some ''B'') (Some [])]"
  let ?env = "candidatesEnv ?cs"
  let ?env' = "candidatesEnv [candidate None (Some [\<lparr>call_name = ''t'', call_arguments = ''{}''\<rparr>])]"
  let ?cs2 = "[candidate (Some ''A'') (Some [\<lparr>call_name = ''t'', call_arguments = ''{}''\<rparr>]),
               candidate (Some ''B'') (Some [\<lparr>call_name = ''u'', call_arguments = ''{}''\<rparr>])]"
  let ?env2 = "candidatesEnv ?cs2"
  let ?req = "firstRequest [] [userMessage (Text ''q'')] :: string request"
  let ?ss = "[\<lparr>step_args = ''{}'',
               step_result = \<lparr>result_content = ''ok'', isError = False\<rparr>,
               step_reply = \<lparr>msg_content = Some ''Done.'', tool_calls = None\<rparr>\<rparr>,
              \<lparr>step_args = ''{}'',
               step_result = \<lparr>result_content = ''ok again'', isError = False\<rparr>,
               step_reply = \<lparr>msg_content = Some ''Done again.'', tool_calls = None\<rparr>\<rparr>]"
  note first_only = candidates_consumed [THEN conjunct1]
  note no_calls = candidates_consumed [THEN conjunct2, THEN conjunct2, THEN conjunct1, rule_format]
  note all_calls = candidates_consumed [THEN conjunct2, THEN conjunct2, THEN conjunct2, rule_format]
  have first: "create ?env [] ?req = Inr \<lparr>choices = ?cs\<rparr>"
    by (simp add: candidatesEnv_def scripted_def)
  have some: "choices \<lparr>choices = ?cs\<rparr> \<noteq> []"
    by simp
  have none: "\<forall>c \<in> set (choices \<lparr>choices = ?cs\<rparr>).
      tool_calls (message c) = None \<or> tool_calls (message c) = Some []"
    by (simp add: candidate_def)
  from no_calls [OF conjI [OF first conjI [OF some none]]]
  have 1: "processQuery ?env [] [] ''q''
     = (''A'' @ newline @ ''B'', [Completion ?req])"
    by (simp add: candidate_def pushContent_def)
  have 2: "processQuery (truncateFollowUps ?env') [] [] ''q'' = processQuery ?env' [] [] ''q''"
    by (rule first_only)
  have 3: "fst (processQuery ?env' [] [] ''q'') = ''[Calling tool t with args {}]'' @ newline @ ''Done.''"
    by code_simp
  have first2: "create ?env2 [] ?req = Inr \<lparr>choices = ?cs2\<rparr>"
    by (simp add: candidatesEnv_def scripted_def)
  have some2: "choices \<lparr>choices = ?cs2\<rparr> \<noteq> []"
    by simp
  have answers: "replays ?env2 ([] @ [Completion ?req]) [userMessage (Text ''q'')]
                   (requestedCalls \<lparr>choices = ?cs2\<rparr>) ?ss"
    by code_simp
  have out: "join newline (candidateOutputs ?env2 (choices \<lparr>choices = ?cs2\<rparr>) ?ss)
      = ''A'' @ newline @ ''[Calling tool t with args {}]'' @ newline @ ''Done.'' @ newline @
        ''B'' @ newline @ ''[Calling tool u with args {}]'' @ newline @ ''Done again.''"
    by code_simp
  have evs: "eventsOf [userMessage (Text ''q'')] (requestedCalls \<lparr>choices = ?cs2\<rparr>) ?ss
      = [CallTool ''t'' ''{}'',
         Completion (followUpRequest [userMessage (Text ''q''), userMessage (Payload ''ok'')]),
         CallTool ''u'' ''{}'',
         Completion (followUpRequest
           [userMessage (Text ''q''), userMessage (Payload ''ok''),
            userMessage (Payload ''ok again'')])]"
    by code_simp
  from all_calls [OF conjI [OF first2 conjI [OF some2 answers]]] out evs
  have 4: "processQuery ?env2 [] [] ''q''
     = (''A'' @ newline @ ''[Calling tool t with args {}]'' @ newline @ ''Done.'' @ newline @
        ''B'' @ newline @ ''[Calling tool u with args {}]'' @ newline @ ''Done again.'',
        [Completion ?req,
         CallTool ''t'' ''{}'',
         Completion (followUpRequest [userMessage (Text ''q''), userMessage (Payload ''ok'')]),
         CallTool ''u'' ''{}'',
         Completion (followUpRequest
           [userMessage (Text ''q''), userMessage (Payload ''ok''),
            userMessage (Payload ''ok again'')])])"
    by simp
  from 1 2 3 4 show ?thesis by (intro conjI)
qed

section \<open>Malformed tool arguments\<close>

lemma processToolCalls_executions:
  "processToolCalls env h st tcs = (res, h') \<Longrightarrow>
   \<exists>evs. h' = h @ evs \<and> length (filter (\<lambda>ev. \<not> isCompletion ev) evs) \<le> length tcs"
proof (induction tcs arbitrary: h st)
  case Nil
  then show ?case by simp
next
  case (Cons tc tcs)
  obtain r1 h1 where step: "processToolCall env h st tc = (r1, h1)"
    by (cases "processToolCall env h st tc")
  have one: "\<exists>evs. h1 = h @ evs \<and> length (filter (\<lambda>ev. \<not> isCompletion ev) evs) \<le> 1"
    using step by (cases rule: processToolCall_cases [of env tc h st]) auto
  then obtain evs1 where h1: "h1 = h @ evs1"
    and n1: "length (filter (\<lambda>ev. \<not> isCompletion ev) evs1) \<le> 1"
    by (elim exE conjE)
  show ?case
  proof (cases r1)
    case (Inl e)
    with Cons.prems step have "h' = h1" by simp
    with h1 n1 show ?thesis by auto
  next
    case (Inr st1)
    with Cons.prems step have rest: "processToolCalls env h1 st1 tcs = (res, h')" by simp
    from Cons.IH [OF rest] obtain evs2 where h2: "h' = h1 @ evs2"
      and n2: "length (filter (\<lambda>ev. \<not> isCompletion ev) evs2) \<le> length tcs"
      by (elim exE conjE)
    have "h' = h @ (evs1 @ evs2)" using h1 h2 by simp
    moreover have "length (filter (\<lambda>ev. \<not> isCompletion ev) (evs1 @ evs2)) \<le> length (tc # tcs)"
      using n1 n2 by simp
    ultimately show ?thesis by (intro exI [of _ "evs1 @ evs2"] conjI)
  qed
qed

text \<open>
  Claim C10. Let a reply carry the tool calls \<open>before @ bad # after\<close>, where the
  arguments of \<open>bad\<close> are not valid JSON (\<^verbatim>\<open>JSON.parse\<close> throws \<open>e\<close>). Then the
  query ends with an error string, and at most the calls \<open>before\<close> are executed:
  neither \<open>bad\<close> nor a call after it is. When the calls before it have completed, the
  exception of the query is the parse exception: the answer is \<^verbatim>\<open>Error: \<close> followed by
  its message, and the history ends where \<open>bad\<close> was reached, so the failure is not shown
  to the model as a tool result. \<^verbatim>\<open>processQuery\<close> returns a string in every case: an
  exception of its \<^verbatim>\<open>try\<close> block becomes the error string.
\<close>

theorem malformed_arguments_abort_query:
  fixes env :: "'j env"
  assumes first: "create env h (firstRequest tools [userMessage (Text query)]) = Inr r"
      and cand: "choices r = c # cs"
      and calls: "tool_calls (message c) = Some (before @ bad # after)"
      and malformed: "JSON_parse env (call_arguments bad) = Inl e"
  shows "(\<exists>evs e'. processQuery env tools h query
                     = (''Error: '' @ error_text e',
                        h @ Completion (firstRequest tools [userMessage (Text query)]) # evs)
             \<and> length (filter (\<lambda>ev. \<not> isCompletion ev) evs) \<le> length before)
       \<and> (\<forall>st' h'.
             processToolCalls env (h @ [Completion (firstRequest tools [userMessage (Text query)])])
               \<lparr>messages = [userMessage (Text query)], finalText = pushContent (message c) []\<rparr>
               before = (Inr st', h')
             \<longrightarrow> processQuery env tools h query = (''Error: '' @ error_text e, h'))
       \<and> fst (processQuery env tools h query)
           = (case fst (processQuery_try env tools h query) of
                Inl error \<Rightarrow> ''Error: '' @ error_text error
              | Inr result \<Rightarrow> result)"
proof -
  let ?h1 = "h @ [Completion (firstRequest tools [userMessage (Text query)])]"
  let ?st1 = "\<lparr>messages = [userMessage (Text query)], finalText = pushContent (message c) []\<rparr> :: 'j locals"
  obtain rb hb where before: "processToolCalls env ?h1 ?st1 before = (rb, hb)"
    by (cases "processToolCalls env ?h1 ?st1 before")
  let ?e = "case rb of Inl e' \<Rightarrow> e' | Inr st' \<Rightarrow> e"
  have stop: "processToolCalls env hb st' (bad # after) = (Inl e, hb)" for st'
    using processToolCall_parse_error [OF malformed] by simp
  have loop: "processToolCalls env ?h1 ?st1 (before @ bad # after) = (Inl ?e, hb)"
    using before stop by (cases rb) (simp_all add: processToolCalls_append)
  have tried: "processQuery_try env tools h query = (Inl ?e, hb)"
    using first cand calls loop by (simp add: processQuery_try_def Let_def)
  then have answer: "processQuery env tools h query = (''Error: '' @ error_text ?e, hb)"
    by (simp add: processQuery_def)
  from processToolCalls_executions [OF before] obtain evs where
    hb: "hb = ?h1 @ evs" and n: "length (filter (\<lambda>ev. \<not> isCompletion ev) evs) \<le> length before"
    by (elim exE conjE)
  have 1: "\<exists>evs e'. processQuery env tools h query
                     = (''Error: '' @ error_text e',
                        h @ Completion (firstRequest tools [userMessage (Text query)]) # evs)
             \<and> length (filter (\<lambda>ev. \<not> isCompletion ev) evs) \<le> length before"
    using answer hb n by (intro exI [of _ evs] exI [of _ ?e] conjI) simp_all
  have 2: "\<forall>st' h'. processToolCalls env ?h1 ?st1 before = (Inr st', h')
             \<longrightarrow> processQuery env tools h query = (''Error: '' @ error_text e, h')"
    using before answer by auto
  have 3: "fst (processQuery env tools h query)
           = (case fst (processQuery_try env tools h query) of
                Inl error \<Rightarrow> ''Error: '' @ error_text error
              | Inr result \<Rightarrow> result)"
    by (simp add: processQuery_def split: prod.splits sum.splits)
  from 1 2 3 show ?thesis by (intro conjI)
qed

theorem malformed_arguments_abort_query_witness:
  "processQuery malformedEnv [] [] ''copy''
     = (''Error: Unexpected end of JSON input'',
        [Completion (firstRequest [] [userMessage (Text ''copy'')]),
         CallTool ''read_file'' ''{}'',
         Completion (followUpRequest
           [userMessage (Text ''copy''), userMessage (Payload ''contents of a'')])])"
proof -
  let ?req = "firstRequest [] [userMessage (Text ''copy'')] :: string request"
  let ?c = "candidate None (Some malformedCalls)"
  let ?before = "[\<lparr>call_name = ''read_file'', call_arguments = ''{}''\<rparr>]"
  let ?bad = "\<lparr>call_name = ''write_file'', call_arguments = ''''\<rparr>"
  let ?after = "[\<lparr>call_name = ''list_directory'', call_arguments = ''{}''\<rparr>]"
  let ?e = "ErrorObject ''Unexpected end of JSON input''"
  let ?h' = "[Completion ?req, CallTool ''read_file'' ''{}'',
         Completion (followUpRequest
           [userMessage (Text ''copy''), userMessage (Payload ''contents of a'')])]"
  let ?st' = "\<lparr>messages = [userMessage (Text ''copy''), userMessage (Payload ''contents of a'')],
               finalText = [''[Calling tool read_file with args {}]'', ''Read a.'']\<rparr>"
  have first: "create malformedEnv [] ?req = Inr \<lparr>choices = [?c]\<rparr>"
    by (simp add: malformedEnv_def scripted_def)
  have cand: "choices \<lparr>choices = [?c]\<rparr> = ?c # []"
    by simp
  have calls: "tool_calls (message ?c) = Some (?before @ ?bad # ?after)"
    by (simp add: candidate_def malformedCalls_def)
  have malformed: "JSON_parse malformedEnv (call_arguments ?bad) = Inl ?e"
    by (simp add: malformedEnv_def scripted_def parseExample_def)
  have reached: "processToolCalls malformedEnv ([] @ [Completion ?req])
      \<lparr>messages = [userMessage (Text ''copy'')], finalText = pushContent (message ?c) []\<rparr>
      ?before = (Inr ?st', ?h')"
    by code_simp
  from malformed_arguments_abort_query [OF first cand calls malformed,
      THEN conjunct2, THEN conjunct1, rule_format, OF reached]
  show ?thesis by simp
qed

end
